theory Spec2Isabelle
  imports Complex_Main "HOL-Library.Word" "HOL-Library.Multiset" "HOL-Library.Sublist"
begin

section \<open>Numbers, big integers and errors\<close>

text \<open>
  The JavaScript sources compute with two kinds of numbers: \<open>BN\<close> big integers
  (package bn.js), modelled as \<^typ>\<open>int\<close>, and JavaScript numbers, modelled as exact
  rationals: the operations of the sources on numbers (\<open>+\<close>, \<open>-\<close>, \<open>/\<close>, \<open>Math.min\<close>,
  \<open>Math.floor\<close>, the comparisons) are taken without the rounding of IEEE doubles, which
  is exact on integers below \<open>2^53\<close>; \<open>NaN\<close> and the infinities are not numbers of the
  model. Every \<open>throw\<close> of the sources, and every assertion of bn.js that the sources
  can trigger, is a value \<open>Inl e\<close>.
\<close>

type_synonym number = rat

datatype error =
    Error string
  | RangeError string
  | TypeError string
  | AssertionError string
  | NotEnoughStake number
    \<comment> \<open>\<open>Error(`No stake accounts found in this pool with enough balance to withdraw
        ${lamportsToSol(amount)} pool tokens.`)\<close>; the argument is the interpolated number.\<close>

definition andThen :: "error + 'a \<Rightarrow> ('a \<Rightarrow> error + 'b) \<Rightarrow> error + 'b" where
  "andThen r f = (case r of Inl e \<Rightarrow> Inl e | Inr v \<Rightarrow> f v)"

subsection \<open>The operations of bn.js that the sources call\<close>

text \<open>
  \<open>BN.prototype.toNumber\<close> asserts that the value fits 53 bits;
  \<open>new BN(number)\<close> asserts \<open>number < 0x20000000000000\<close> on the absolute value and
  drops the fraction; \<open>div\<close> rounds towards zero and asserts a nonzero divisor;
  \<open>umod\<close> is the non-negative remainder; \<open>gcd\<close> works on absolute values.
\<close>

definition toNumber :: "int \<Rightarrow> error + number" where
  "toNumber x =
     (if \<bar>x\<bar> < 2 ^ 53 then Inr (of_int x)
      else Inl (AssertionError ''Number can only safely store up to 53 bits''))"

definition new_BN :: "number \<Rightarrow> error + int" where
  "new_BN x =
     (if \<bar>x\<bar> < 2 ^ 53 then Inr (if x < 0 then - \<lfloor>- x\<rfloor> else \<lfloor>x\<rfloor>)
      else Inl (AssertionError ''Assertion failed''))"

definition bn_div :: "int \<Rightarrow> int \<Rightarrow> error + int" where
  "bn_div a b =
     (if b = 0 then Inl (AssertionError ''Assertion failed'')
      else Inr (sgn a * sgn b * (\<bar>a\<bar> div \<bar>b\<bar>)))"

definition bn_umod :: "int \<Rightarrow> int \<Rightarrow> int" where
  "bn_umod a b = a mod \<bar>b\<bar>"

definition bn_gcd :: "int \<Rightarrow> int \<Rightarrow> int" where
  "bn_gcd a b = gcd a b"

section \<open>Fee arithmetic\<close>

text \<open>
  \<open>divideBnToNumber\<close>, \<open>calcPoolTokensForDeposit\<close> and \<open>lamportsToSol\<close> of
  \<open>dist/index.browser.cjs.js\<close>. \<open>LAMPORTS_PER_SOL\<close> is the constant of web3.js. The
  last line of \<open>divideBnToNumber\<close> divides and adds numbers: here that is the exact
  rational, in the code it is rounded to a double. The two agree when the remainder is
  zero; otherwise the code's value is the rational one up to that rounding, and the floor
  that \<open>calcPoolTokensForDeposit\<close> takes of it can be one more than the floor of the
  rational. Where a theorem of a claim would depend on the difference, its statement is
  restricted to the values on which the two agree.
\<close>

definition divideBnToNumber :: "int \<Rightarrow> int \<Rightarrow> error + number" where
  "divideBnToNumber num den =
     (if den = 0 then Inr 0
      else
        andThen (bn_div num den) (\<lambda>q.
        andThen (toNumber q) (\<lambda>quotient.
          let rem = bn_umod num den;
              g = bn_gcd rem den
          in andThen (bn_div rem g) (\<lambda>rg.
             andThen (toNumber rg) (\<lambda>x.
             andThen (bn_div den g) (\<lambda>dg.
             andThen (toNumber dg) (\<lambda>y.
               Inr (quotient + x / y))))))))"

definition LAMPORTS_PER_SOL :: number where
  "LAMPORTS_PER_SOL = 1000000000"

definition lamportsToSol :: "number \<Rightarrow> number" where
  "lamportsToSol lamports = \<bar>lamports\<bar> / LAMPORTS_PER_SOL"

record Fee =
  denominator :: int
  numerator :: int

text \<open>The fields of the decoded \<open>StakePool\<close> that the selector and its caller read.\<close>

record StakePool =
  managerFeeAccount :: "8 word list"
  reserveStake :: "8 word list"
  totalLamports :: int
  poolTokenSupply :: int
  preferredWithdrawValidatorVoteAddress :: "8 word list option"
  stakeWithdrawalFee :: Fee

text \<open>\<open>calcPoolTokensForDeposit(stakePool, stakeLamports)\<close>.\<close>

definition calcPoolTokensForDeposit :: "StakePool \<Rightarrow> number \<Rightarrow> error + number" where
  "calcPoolTokensForDeposit stakePool stakeLamports =
     (if poolTokenSupply stakePool = 0 \<or> totalLamports stakePool = 0 then Inr stakeLamports
      else
        andThen (new_BN stakeLamports) (\<lambda>l.
        andThen (divideBnToNumber (l * poolTokenSupply stakePool) (totalLamports stakePool)) (\<lambda>r.
          Inr (of_int \<lfloor>r\<rfloor>))))"

section \<open>The withdrawal account selector\<close>

text \<open>
  \<open>prepareWithdrawAccounts(connection, stakePool, stakePoolAddress, amount, compareFn, skipFee)\<close>.
  What the function awaits from the connection is an argument of the model: the decoded
  validator list, the minimum balance for rent exemption and the lamports of the reserve
  account (\<open>None\<close> when the account does not exist). The address derivations
  \<open>findStakeProgramAddress\<close> and \<open>findTransientStakeProgramAddress\<close>, with the program
  id and the pool address fixed, are the parameters \<open>findStake\<close> and \<open>findTransient\<close>.
\<close>

type_synonym PublicKey = "8 word list"

datatype ValidatorStakeInfoStatus = Active | DeactivatingTransient | ReadyForRemoval

record ValidatorStakeInfo =
  status :: ValidatorStakeInfoStatus
  voteAccountAddress :: PublicKey
  activeStakeLamports :: int
  transientStakeLamports :: int
  transientSeedSuffixStart :: int
  transientSeedSuffixEnd :: int
  lastUpdateEpoch :: int

datatype account_type = preferred | active | transient | reserve

record account =
  type :: account_type
  voteAddress :: "PublicKey option"
  stakeAddress :: PublicKey
  lamports :: number

record WithdrawAccount =
  w_stakeAddress :: PublicKey
  w_voteAddress :: "PublicKey option"
  poolAmount :: number

definition MINIMUM_ACTIVE_STAKE :: number where
  "MINIMUM_ACTIVE_STAKE = 1000000"

definition types :: "account_type list" where
  "types = [preferred, active, transient, reserve]"

text \<open>The body of the loop \<open>for (const validator of validatorList.validators)\<close>: the
  accounts one validator pushes.\<close>

definition validator_accounts ::
  "(PublicKey \<Rightarrow> PublicKey) \<Rightarrow> (PublicKey \<Rightarrow> int \<Rightarrow> PublicKey) \<Rightarrow> StakePool \<Rightarrow> number \<Rightarrow>
   ValidatorStakeInfo \<Rightarrow> error + account list" where
  "validator_accounts findStake findTransient stakePool minBalance validator =
     (if status validator \<noteq> Active then Inr []
      else
        let stakeAccountAddress = findStake (voteAccountAddress validator) in
        andThen
          (if activeStakeLamports validator \<noteq> 0 then
             let isPreferred =
                   (preferredWithdrawValidatorVoteAddress stakePool = Some (voteAccountAddress validator))
             in andThen (toNumber (activeStakeLamports validator)) (\<lambda>l.
                  Inr [\<lparr>type = (if isPreferred then preferred else active),
                        voteAddress = Some (voteAccountAddress validator),
                        stakeAddress = stakeAccountAddress,
                        lamports = l\<rparr>])
           else Inr [])
          (\<lambda>pushed.
        andThen (toNumber (transientStakeLamports validator)) (\<lambda>t.
          let transientStakeLamports = t - minBalance in
          if transientStakeLamports > 0 then
            Inr (pushed @
                 [\<lparr>type = transient,
                   voteAddress = Some (voteAccountAddress validator),
                   stakeAddress = findTransient (voteAccountAddress validator)
                                    (transientSeedSuffixStart validator),
                   lamports = transientStakeLamports\<rparr>])
          else Inr pushed)))"

fun prepare_accounts ::
  "(PublicKey \<Rightarrow> PublicKey) \<Rightarrow> (PublicKey \<Rightarrow> int \<Rightarrow> PublicKey) \<Rightarrow> StakePool \<Rightarrow> number \<Rightarrow>
   ValidatorStakeInfo list \<Rightarrow> error + account list" where
  "prepare_accounts findStake findTransient stakePool minBalance [] = Inr []"
| "prepare_accounts findStake findTransient stakePool minBalance (validator # validators) =
     andThen (validator_accounts findStake findTransient stakePool minBalance validator) (\<lambda>pushed.
     andThen (prepare_accounts findStake findTransient stakePool minBalance validators) (\<lambda>rest.
       Inr (pushed @ rest)))"

text \<open>
  \<open>accounts.sort(compareFn || ((a, b) => b.lamports - a.lamports))\<close>. The sort of
  ECMAScript is stable, and for a consistent comparator (\<open>cmp a b < 0\<close> exactly when
  \<open>0 < cmp b a\<close>, and transitive) its result is the one of a stable insertion sort, which
  is what \<open>sort_by\<close> is; \<open>a\<close> stays before \<open>b\<close> when the comparator returns a value
  that is not positive. The default comparator is consistent. For a comparator that is not
  consistent the order the code produces depends on the engine, and \<open>sort_by\<close> does not
  describe it: nothing below is stated for such a comparator.
\<close>

fun insert_by :: "('a \<Rightarrow> 'a \<Rightarrow> number) \<Rightarrow> 'a \<Rightarrow> 'a list \<Rightarrow> 'a list" where
  "insert_by cmp x [] = [x]"
| "insert_by cmp x (y # ys) = (if cmp x y \<le> 0 then x # y # ys else y # insert_by cmp x ys)"

definition sort_by :: "('a \<Rightarrow> 'a \<Rightarrow> number) \<Rightarrow> 'a list \<Rightarrow> 'a list" where
  "sort_by cmp xs = foldr (insert_by cmp) xs []"

definition default_compare :: "account \<Rightarrow> account \<Rightarrow> number" where
  "default_compare a b = lamports b - lamports a"

definition reserve_accounts :: "StakePool \<Rightarrow> number \<Rightarrow> number option \<Rightarrow> account list" where
  "reserve_accounts stakePool minBalanceForRentExemption reserveLamports =
     (let reserveStakeBalance =
            (case reserveLamports of None \<Rightarrow> 0 | Some l \<Rightarrow> l) - minBalanceForRentExemption - 1
      in if reserveStakeBalance > 0 then
           [\<lparr>type = reserve, voteAddress = None, stakeAddress = reserveStake stakePool,
             lamports = reserveStakeBalance\<rparr>]
         else [])"

text \<open>The candidate list \<open>accounts\<close> as it stands before the walk: the sorted accounts of
  the validators, then the reserve.\<close>

definition candidate_accounts ::
  "(PublicKey \<Rightarrow> PublicKey) \<Rightarrow> (PublicKey \<Rightarrow> int \<Rightarrow> PublicKey) \<Rightarrow> StakePool \<Rightarrow>
   ValidatorStakeInfo list \<Rightarrow> number \<Rightarrow> number option \<Rightarrow> (account \<Rightarrow> account \<Rightarrow> number) option \<Rightarrow>
   error + account list" where
  "candidate_accounts findStake findTransient stakePool validators minBalanceForRentExemption
     reserveLamports compareFn =
     (if validators = [] then Inl (Error ''No accounts found'')
      else
        let minBalance = minBalanceForRentExemption + MINIMUM_ACTIVE_STAKE in
        andThen (prepare_accounts findStake findTransient stakePool minBalance validators) (\<lambda>accounts.
          Inr (sort_by (case compareFn of None \<Rightarrow> default_compare | Some f \<Rightarrow> f) accounts
               @ reserve_accounts stakePool minBalanceForRentExemption reserveLamports)))"

definition inverseFee :: "Fee \<Rightarrow> Fee" where
  "inverseFee fee = \<lparr>denominator = denominator fee, numerator = denominator fee - numerator fee\<rparr>"

text \<open>The pool tokens a candidate can give: \<open>availableForWithdrawal\<close> of the inner
  loop.\<close>

definition availableForWithdrawal :: "StakePool \<Rightarrow> bool \<Rightarrow> number \<Rightarrow> error + number" where
  "availableForWithdrawal stakePool skipFee lamports' =
     andThen (calcPoolTokensForDeposit stakePool lamports') (\<lambda>available.
       if \<not> skipFee \<and> numerator (inverseFee (stakeWithdrawalFee stakePool)) \<noteq> 0 then
         andThen (new_BN available) (\<lambda>a.
           divideBnToNumber (a * denominator (inverseFee (stakeWithdrawalFee stakePool)))
             (numerator (inverseFee (stakeWithdrawalFee stakePool))))
       else Inr available)"

text \<open>The inner loop \<open>for (const { stakeAddress, voteAddress, lamports } of
  filteredAccounts)\<close> on the state \<open>(withdrawFrom, remainingAmount)\<close>; it returns at its
  \<open>break\<close>. \<open>remainingAmount -= poolAmount\<close> is the exact difference here and a rounded
  double in the code; the two agree on whole numbers below \<open>2^53\<close>.\<close>

fun walk_accounts ::
  "StakePool \<Rightarrow> bool \<Rightarrow> number \<Rightarrow> account_type \<Rightarrow> account list \<Rightarrow>
   WithdrawAccount list \<times> number \<Rightarrow> error + WithdrawAccount list \<times> number" where
  "walk_accounts stakePool skipFee minBalance ty [] st = Inr st"
| "walk_accounts stakePool skipFee minBalance ty (a # filteredAccounts) (withdrawFrom, remainingAmount) =
     (if lamports a \<le> minBalance \<and> ty = transient then
        walk_accounts stakePool skipFee minBalance ty filteredAccounts (withdrawFrom, remainingAmount)
      else
        andThen (availableForWithdrawal stakePool skipFee (lamports a)) (\<lambda>available.
          let poolAmount = min available remainingAmount in
          if poolAmount \<le> 0 then
            walk_accounts stakePool skipFee minBalance ty filteredAccounts (withdrawFrom, remainingAmount)
          else
            let withdrawFrom' =
                  withdrawFrom @
                  [\<lparr>w_stakeAddress = stakeAddress a, w_voteAddress = voteAddress a,
                    poolAmount = poolAmount\<rparr>];
                remainingAmount' = remainingAmount - poolAmount
            in if remainingAmount' = 0 then Inr (withdrawFrom', remainingAmount')
               else walk_accounts stakePool skipFee minBalance ty filteredAccounts
                      (withdrawFrom', remainingAmount')))"

text \<open>The outer loop \<open>for (const type of types)\<close>.\<close>

fun walk_types ::
  "StakePool \<Rightarrow> bool \<Rightarrow> number \<Rightarrow> account list \<Rightarrow> account_type list \<Rightarrow>
   WithdrawAccount list \<times> number \<Rightarrow> error + WithdrawAccount list \<times> number" where
  "walk_types stakePool skipFee minBalance accounts [] st = Inr st"
| "walk_types stakePool skipFee minBalance accounts (ty # tys) st =
     andThen (walk_accounts stakePool skipFee minBalance ty
                (filter (\<lambda>a. type a = ty) accounts) st) (\<lambda>st'.
       if snd st' = 0 then Inr st'
       else walk_types stakePool skipFee minBalance accounts tys st')"

definition prepareWithdrawAccounts ::
  "(PublicKey \<Rightarrow> PublicKey) \<Rightarrow> (PublicKey \<Rightarrow> int \<Rightarrow> PublicKey) \<Rightarrow> StakePool \<Rightarrow>
   ValidatorStakeInfo list \<Rightarrow> number \<Rightarrow> number option \<Rightarrow> number \<Rightarrow>
   (account \<Rightarrow> account \<Rightarrow> number) option \<Rightarrow> bool \<Rightarrow> error + WithdrawAccount list" where
  "prepareWithdrawAccounts findStake findTransient stakePool validators minBalanceForRentExemption
     reserveLamports amount compareFn skipFee =
     andThen (candidate_accounts findStake findTransient stakePool validators
                minBalanceForRentExemption reserveLamports compareFn) (\<lambda>accounts.
     andThen (walk_types stakePool skipFee (minBalanceForRentExemption + MINIMUM_ACTIVE_STAKE)
                accounts types ([], amount)) (\<lambda>(withdrawFrom, remainingAmount).
       if remainingAmount > 0 then Inl (NotEnoughStake (lamportsToSol amount))
       else Inr withdrawFrom))"

text \<open>The argument \<open>skipFee\<close> that \<open>withdrawStake\<close>, the caller of the selector, passes:
  \<open>poolTokenAccount.equals(stakePool.account.data.managerFeeAccount)\<close>.\<close>

definition withdrawStake_skipFee :: "PublicKey \<Rightarrow> StakePool \<Rightarrow> bool" where
  "withdrawStake_skipFee poolTokenAccount stakePool =
     (poolTokenAccount = managerFeeAccount stakePool)"

subsection \<open>The walk as the specification words it\<close>

text \<open>The candidates in the order of the walk: tier by tier, each tier in the order of
  the candidate list.\<close>

definition tier_order :: "account list \<Rightarrow> account list" where
  "tier_order accounts = concat (map (\<lambda>ty. filter (\<lambda>a. type a = ty) accounts) types)"

definition allocation :: "account \<Rightarrow> number \<Rightarrow> WithdrawAccount" where
  "allocation a amount =
     \<lparr>w_stakeAddress = stakeAddress a, w_voteAddress = voteAddress a, poolAmount = amount\<rparr>"

text \<open>The candidates that the specification gives a validator: the one for its active
  stake and the one for its transient stake.\<close>

definition active_account ::
  "(PublicKey \<Rightarrow> PublicKey) \<Rightarrow> StakePool \<Rightarrow> ValidatorStakeInfo \<Rightarrow> account" where
  "active_account findStake stakePool v =
     \<lparr>type = (if preferredWithdrawValidatorVoteAddress stakePool = Some (voteAccountAddress v)
              then preferred else active),
      voteAddress = Some (voteAccountAddress v),
      stakeAddress = findStake (voteAccountAddress v),
      lamports = of_int (activeStakeLamports v)\<rparr>"

definition transient_account ::
  "(PublicKey \<Rightarrow> int \<Rightarrow> PublicKey) \<Rightarrow> number \<Rightarrow> ValidatorStakeInfo \<Rightarrow> account" where
  "transient_account findTransient minBalance v =
     \<lparr>type = transient,
      voteAddress = Some (voteAccountAddress v),
      stakeAddress = findTransient (voteAccountAddress v) (transientSeedSuffixStart v),
      lamports = of_int (transientStakeLamports v) - minBalance\<rparr>"

text \<open>What identifies the account an allocation draws from, and the same for a
  candidate.\<close>

definition alloc_key :: "WithdrawAccount \<Rightarrow> PublicKey \<times> PublicKey option" where
  "alloc_key w = (w_stakeAddress w, w_voteAddress w)"

definition account_key :: "account \<Rightarrow> PublicKey \<times> PublicKey option" where
  "account_key a = (stakeAddress a, voteAddress a)"

text \<open>
  The walk in the words of claim C3, as one pass over the ordered candidates: it ends as
  soon as the remaining amount is zero; for each candidate it takes the minimum of the
  candidate's available pool tokens and the remaining amount, skips the candidate when
  the minimum is not positive, and records the allocation otherwise.
\<close>

fun claimed_walk ::
  "StakePool \<Rightarrow> bool \<Rightarrow> account list \<Rightarrow> WithdrawAccount list \<times> number \<Rightarrow>
   error + WithdrawAccount list \<times> number" where
  "claimed_walk stakePool skipFee [] st = Inr st"
| "claimed_walk stakePool skipFee (a # as) (withdrawFrom, remaining) =
     (if remaining = 0 then Inr (withdrawFrom, remaining)
      else
        andThen (availableForWithdrawal stakePool skipFee (lamports a)) (\<lambda>available.
          if min available remaining \<le> 0 then
            claimed_walk stakePool skipFee as (withdrawFrom, remaining)
          else
            claimed_walk stakePool skipFee as
              (withdrawFrom @ [allocation a (min available remaining)],
               remaining - min available remaining)))"

text \<open>The same pass with the rule of section 4.4 of the specification that claim C3
  leaves out: a transient candidate whose lamports are at or below the minimum balance is
  passed over.\<close>

fun guarded_walk ::
  "StakePool \<Rightarrow> bool \<Rightarrow> number \<Rightarrow> account list \<Rightarrow> WithdrawAccount list \<times> number \<Rightarrow>
   error + WithdrawAccount list \<times> number" where
  "guarded_walk stakePool skipFee minBalance [] st = Inr st"
| "guarded_walk stakePool skipFee minBalance (a # as) (withdrawFrom, remaining) =
     (if remaining = 0 then Inr (withdrawFrom, remaining)
      else if type a = transient \<and> lamports a \<le> minBalance then
        guarded_walk stakePool skipFee minBalance as (withdrawFrom, remaining)
      else
        andThen (availableForWithdrawal stakePool skipFee (lamports a)) (\<lambda>available.
          if min available remaining \<le> 0 then
            guarded_walk stakePool skipFee minBalance as (withdrawFrom, remaining)
          else
            guarded_walk stakePool skipFee minBalance as
              (withdrawFrom @ [allocation a (min available remaining)],
               remaining - min available remaining)))"

subsection \<open>Concrete inputs\<close>

text \<open>A pool in which a pool token is worth one lamport, one validator of the pool, and
  the two address derivations as functions that tag the vote address.\<close>

definition ex_pool :: StakePool where
  "ex_pool =
     \<lparr>managerFeeAccount = [7], reserveStake = [9], totalLamports = 1000, poolTokenSupply = 1000,
      preferredWithdrawValidatorVoteAddress = None,
      stakeWithdrawalFee = \<lparr>denominator = 0, numerator = 0\<rparr>\<rparr>"

definition ex_validator :: ValidatorStakeInfo where
  "ex_validator =
     \<lparr>status = Active, voteAccountAddress = [1], activeStakeLamports = 0,
      transientStakeLamports = 0, transientSeedSuffixStart = 0, transientSeedSuffixEnd = 0,
      lastUpdateEpoch = 0\<rparr>"

definition ex_findStake :: "PublicKey \<Rightarrow> PublicKey" where
  "ex_findStake vote = 1 # vote"

definition ex_findTransient :: "PublicKey \<Rightarrow> int \<Rightarrow> PublicKey" where
  "ex_findTransient vote seed = 2 # vote"

text \<open>A comparator of a caller: \<open>(a, b) => a.lamports - b.lamports\<close>, the smallest balance
  first.\<close>

definition ex_compareFn :: "account \<Rightarrow> account \<Rightarrow> number" where
  "ex_compareFn a b = lamports a - lamports b"

section \<open>The layout codec\<close>

text \<open>
  A buffer is a list of bytes. A layout object is the record of its fields and of its
  three methods; \<open>encode\<close> returns the buffer it has written together with the number
  the method returns. Decoded JavaScript values are the datatype \<open>jsval\<close>; \<open>null\<close>
  and \<open>undefined\<close> are both \<open>JNull\<close>. An object is the list of its properties in
  insertion order.
\<close>

type_synonym buffer = "8 word list"

datatype jsval =
    JNull
  | JNum int
  | JBN int
  | JBuffer buffer
  | JPublicKey buffer
  | JObject "(string \<times> jsval) list"

record Layout =
  span :: int
  property :: "string option"
  encode :: "jsval \<Rightarrow> buffer \<Rightarrow> nat \<Rightarrow> error + buffer \<times> nat"
  decode :: "buffer \<Rightarrow> nat \<Rightarrow> error + jsval"
  getSpan :: "buffer \<Rightarrow> nat \<Rightarrow> error + nat"

text \<open>\<open>dest[property] = value\<close>: an existing property keeps its place.\<close>

fun obj_set :: "(string \<times> jsval) list \<Rightarrow> string \<Rightarrow> jsval \<Rightarrow> (string \<times> jsval) list" where
  "obj_set [] k v = [(k, v)]"
| "obj_set ((k', v') # kvs) k v = (if k' = k then (k, v) # kvs else (k', v') # obj_set kvs k v)"

definition obj_get :: "jsval \<Rightarrow> string \<Rightarrow> jsval option" where
  "obj_get src k = (case src of JObject kvs \<Rightarrow> map_of kvs k | _ \<Rightarrow> None)"

subsection \<open>Buffer methods\<close>

text \<open>
  \<open>readUIntLE\<close>, \<open>writeUIntLE\<close>, \<open>slice\<close> and \<open>write(.., 'hex')\<close> of the
  \<open>Buffer\<close> class, which is not part of the repository. For a byte length from 1 to 6
  Node.js and the \<open>buffer\<close> package agree: the value is read and written little-endian,
  an access beyond the end and a value outside \<open>0 .. 2^(8 * byteLength) - 1\<close> throw a
  \<open>RangeError\<close>. Other byte lengths are rejected here as Node.js does.
\<close>

fun le_value :: "buffer \<Rightarrow> int" where
  "le_value [] = 0"
| "le_value (x # xs) = uint x + 256 * le_value xs"

fun le_bytes :: "nat \<Rightarrow> int \<Rightarrow> buffer" where
  "le_bytes 0 v = []"
| "le_bytes (Suc n) v = word_of_int v # le_bytes n (v div 256)"

definition buf_write :: "buffer \<Rightarrow> nat \<Rightarrow> buffer \<Rightarrow> buffer" where
  "buf_write b offset bytes = take offset b @ bytes @ drop (offset + length bytes) b"

definition readUIntLE :: "buffer \<Rightarrow> nat \<Rightarrow> int \<Rightarrow> error + int" where
  "readUIntLE b offset byteLength =
     (if byteLength < 1 \<or> 6 < byteLength then Inl (RangeError ''byteLength is out of range'')
      else if length b < offset + nat byteLength then Inl (RangeError ''offset is out of range'')
      else Inr (le_value (take (nat byteLength) (drop offset b))))"

definition writeUIntLE :: "buffer \<Rightarrow> int \<Rightarrow> nat \<Rightarrow> int \<Rightarrow> error + buffer" where
  "writeUIntLE b v offset byteLength =
     (if byteLength < 1 \<or> 6 < byteLength then Inl (RangeError ''byteLength is out of range'')
      else if v < 0 \<or> 2 ^ (8 * nat byteLength) \<le> v then Inl (RangeError ''value is out of range'')
      else if length b < offset + nat byteLength then Inl (RangeError ''offset is out of range'')
      else Inr (buf_write b offset (le_bytes (nat byteLength) v)))"

subsection \<open>The layout classes of the bundle\<close>

text \<open>\<open>Layout.getSpan\<close> of the base class.\<close>

definition Layout_getSpan :: "int \<Rightarrow> buffer \<Rightarrow> nat \<Rightarrow> error + nat" where
  "Layout_getSpan sp b offset =
     (if 0 > sp then Inl (RangeError ''indeterminate span'') else Inr (nat sp))"

text \<open>\<open>class UInt\<close>: the object the constructor builds, and the constructor with its
  check. The sources encode numbers only with it; another value is a \<open>TypeError\<close> here.\<close>

definition UInt_layout :: "int \<Rightarrow> string option \<Rightarrow> Layout" where
  "UInt_layout sp prop =
     \<lparr>span = sp, property = prop,
      encode = (\<lambda>src b offset.
         case src of
           JNum v \<Rightarrow> andThen (writeUIntLE b v offset sp) (\<lambda>b'. Inr (b', nat sp))
         | _ \<Rightarrow> Inl (TypeError ''value is not a number'')),
      decode = (\<lambda>b offset. andThen (readUIntLE b offset sp) (\<lambda>v. Inr (JNum v))),
      getSpan = Layout_getSpan sp\<rparr>"

definition UInt :: "int \<Rightarrow> string option \<Rightarrow> error + Layout" where
  "UInt sp prop =
     (if 6 < sp then Inl (RangeError ''span must not exceed 6 bytes'')
      else Inr (UInt_layout sp prop))"

definition u8 :: "string option \<Rightarrow> Layout" where
  "u8 prop = UInt_layout 1 prop"

text \<open>\<open>class Blob\<close> with a fixed length (the sources pass no external length).\<close>

definition Blob_layout :: "nat \<Rightarrow> string option \<Rightarrow> Layout" where
  "Blob_layout len prop =
     \<lparr>span = int len, property = prop,
      encode = (\<lambda>src b offset.
         case src of
           JBuffer bytes \<Rightarrow>
             if len \<noteq> length bytes then
               Inl (TypeError ''Blob.encode requires (length) Buffer as src'')
             else if offset + len > length b then Inl (RangeError ''encoding overruns Buffer'')
             else Inr (buf_write b offset bytes, len)
         | _ \<Rightarrow> Inl (TypeError ''Blob.encode requires (length) Buffer as src'')),
      decode = (\<lambda>b offset. Inr (JBuffer (take len (drop offset b)))),
      getSpan = (\<lambda>b offset. Inr len)\<rparr>"

text \<open>\<open>class FutureEpochLayout\<close> and its factory \<open>futureEpoch(layout, property)\<close>.\<close>

definition FutureEpochLayout :: "Layout \<Rightarrow> string option \<Rightarrow> Layout" where
  "FutureEpochLayout layout prop =
     (let discriminator = u8 None in
      \<lparr>span = - 1, property = prop,
       encode = (\<lambda>src b offset.
          if src = JNull then encode discriminator (JNum 0) b offset
          else
            andThen (encode discriminator (JNum 1) b offset) (\<lambda>(b1, _).
            andThen (encode layout src b1 (offset + 1)) (\<lambda>(b2, n).
              Inr (b2, n + 1)))),
       decode = (\<lambda>b offset.
          andThen (decode discriminator b offset) (\<lambda>d.
            if d = JNum 0 then Inr JNull else decode layout b (offset + 1))),
       getSpan = (\<lambda>b offset.
          andThen (decode discriminator b offset) (\<lambda>d.
            if d = JNum 0 then Inr 1
            else andThen (getSpan layout b (offset + 1)) (\<lambda>n. Inr (n + 1))))\<rparr>)"

definition futureEpoch :: "Layout \<Rightarrow> string option \<Rightarrow> Layout" where
  "futureEpoch layout prop = FutureEpochLayout layout prop"

subsection \<open>Layouts of the libraries\<close>

text \<open>
  \<open>struct\<close>, \<open>u64\<close>, \<open>publicKey\<close> and \<open>option\<close> are imported by the bundle from
  \<open>@coral-xyz/borsh\<close>, which builds them on the \<open>Structure\<close> and \<open>Blob\<close> classes of
  buffer-layout. They are modelled after the published sources of these packages.
\<close>

fun Structure_decode ::
  "Layout list \<Rightarrow> buffer \<Rightarrow> nat \<Rightarrow> (string \<times> jsval) list \<Rightarrow> error + jsval" where
  "Structure_decode [] b offset dest = Inr (JObject dest)"
| "Structure_decode (fd # fds) b offset dest =
     andThen (case property fd of
                None \<Rightarrow> Inr dest
              | Some p \<Rightarrow> andThen (decode fd b offset) (\<lambda>v. Inr (obj_set dest p v))) (\<lambda>dest'.
     andThen (getSpan fd b offset) (\<lambda>n.
       Structure_decode fds b (offset + n) dest'))"

fun Structure_getSpan :: "Layout list \<Rightarrow> buffer \<Rightarrow> nat \<Rightarrow> nat \<Rightarrow> error + nat" where
  "Structure_getSpan [] b offset sp = Inr sp"
| "Structure_getSpan (fd # fds) b offset sp =
     andThen (getSpan fd b offset) (\<lambda>fsp.
       Structure_getSpan fds b (offset + fsp) (sp + fsp))"

fun Structure_encode ::
  "Layout list \<Rightarrow> jsval \<Rightarrow> buffer \<Rightarrow> nat \<Rightarrow> nat \<Rightarrow> nat \<Rightarrow> nat \<Rightarrow> error + buffer \<times> nat" where
  "Structure_encode [] src b offset firstOffset lastOffset lastWrote =
     Inr (b, (lastOffset + lastWrote) - firstOffset)"
| "Structure_encode (fd # fds) src b offset firstOffset lastOffset lastWrote =
     (let sp = span fd;
          lastWrote0 = (if 0 < sp then nat sp else 0)
      in andThen
           (case property fd of
              None \<Rightarrow> Inr (b, lastWrote0, sp)
            | Some p \<Rightarrow>
                (case obj_get src p of
                   None \<Rightarrow> Inr (b, lastWrote0, sp)
                 | Some fv \<Rightarrow>
                     andThen (encode fd fv b offset) (\<lambda>(b', wrote).
                       if 0 > sp then
                         andThen (getSpan fd b' offset) (\<lambda>n. Inr (b', wrote, int n))
                       else Inr (b', wrote, sp))))
           (\<lambda>(b', wrote, sp').
              Structure_encode fds src b' (nat (int offset + sp')) firstOffset offset wrote))"

text \<open>The \<open>Structure\<close> object for a given value of its field \<open>span\<close>, and the
  constructor, which sums the spans of the fields when all of them are fixed.\<close>

definition Structure_layout :: "int \<Rightarrow> Layout list \<Rightarrow> string option \<Rightarrow> Layout" where
  "Structure_layout sp flds prop =
     \<lparr>span = sp, property = prop,
      encode = (\<lambda>src b offset. Structure_encode flds src b offset offset 0 0),
      decode = (\<lambda>b offset. Structure_decode flds b offset []),
      getSpan = (\<lambda>b offset.
         if 0 \<le> sp then Inr (nat sp)
         else case Structure_getSpan flds b offset 0 of
                Inl e \<Rightarrow> Inl (RangeError ''indeterminate span'')
              | Inr n \<Rightarrow> Inr n)\<rparr>"

definition struct :: "Layout list \<Rightarrow> string option \<Rightarrow> Layout" where
  "struct flds prop =
     Structure_layout
       (if list_all (\<lambda>fd. 0 \<le> span fd) flds then sum_list (map span flds) else - 1)
       flds prop"

definition u64 :: "string option \<Rightarrow> Layout" where
  "u64 prop =
     (let blob = Blob_layout 8 None in
      \<lparr>span = 8, property = prop,
       encode = (\<lambda>src b offset.
          case src of
            JBN v \<Rightarrow>
              if 2 ^ 64 \<le> \<bar>v\<bar> then Inl (AssertionError ''byte array longer than desired length'')
              else encode blob (JBuffer (le_bytes 8 \<bar>v\<bar>)) b offset
          | _ \<Rightarrow> Inl (TypeError ''src.toArrayLike is not a function'')),
       decode = (\<lambda>b offset.
          andThen (decode blob b offset) (\<lambda>v.
            case v of JBuffer bytes \<Rightarrow> Inr (JBN (le_value bytes))
                    | _ \<Rightarrow> Inl (TypeError ''not a buffer''))),
       getSpan = Layout_getSpan 8\<rparr>)"

definition publicKey :: "string option \<Rightarrow> Layout" where
  "publicKey prop =
     (let blob = Blob_layout 32 None in
      \<lparr>span = 32, property = prop,
       encode = (\<lambda>src b offset.
          case src of
            JPublicKey bytes \<Rightarrow> encode blob (JBuffer bytes) b offset
          | _ \<Rightarrow> Inl (TypeError ''key.toBuffer is not a function'')),
       decode = (\<lambda>b offset.
          andThen (decode blob b offset) (\<lambda>v.
            case v of
              JBuffer bytes \<Rightarrow>
                if length bytes \<noteq> 32 then Inl (Error ''Invalid public key input'')
                else Inr (JPublicKey bytes)
            | _ \<Rightarrow> Inl (TypeError ''not a buffer''))),
       getSpan = Layout_getSpan 32\<rparr>)"

text \<open>\<open>option\<close> of \<open>@coral-xyz/borsh\<close>: the discriminator is 0 or 1, any other byte
  throws.\<close>

definition borsh_option :: "Layout \<Rightarrow> string option \<Rightarrow> Layout" where
  "borsh_option layout prop =
     (let discriminator = u8 None in
      \<lparr>span = - 1, property = prop,
       encode = (\<lambda>src b offset.
          if src = JNull then encode discriminator (JNum 0) b offset
          else
            andThen (encode discriminator (JNum 1) b offset) (\<lambda>(b1, _).
            andThen (encode layout src b1 (offset + 1)) (\<lambda>(b2, n).
              Inr (b2, n + 1)))),
       decode = (\<lambda>b offset.
          andThen (decode discriminator b offset) (\<lambda>d.
            if d = JNum 0 then Inr JNull
            else if d = JNum 1 then decode layout b (offset + 1)
            else Inl (Error ''Invalid option''))),
       getSpan = (\<lambda>b offset.
          andThen (decode discriminator b offset) (\<lambda>d.
            if d = JNum 0 then Inr 1
            else if d = JNum 1 then andThen (getSpan layout b (offset + 1)) (\<lambda>n. Inr (n + 1))
            else Inl (Error ''Invalid option'')))\<rparr>)"

text \<open>
  Modelled from the spec: \<open>option\<close> of \<open>src/utils\<close>, which \<open>src/layouts.ts\<close> imports
  and which is not among the sources. The specification gives it the contract of
  \<open>futureEpoch\<close>: one discriminator byte; 0 is \<open>null\<close> with span 1; any other value is
  followed by the inner layout, with span 1 + the inner span; encoding writes 0 alone, or 1
  and the inner encoding. \<open>src/layouts.ts\<close> names the inner layout, not the option, and
  the tests read the decoded option under that name, so the option takes the property of
  its inner layout.
\<close>

definition utils_option :: "Layout \<Rightarrow> Layout" where
  "utils_option layout = FutureEpochLayout layout (property layout)"

subsection \<open>The layouts of the stake pool account\<close>

text \<open>\<open>lockup\<close> and \<open>fee\<close> of \<open>dist/index.browser.cjs.js\<close>, lines 506 and 507.\<close>

definition lockup :: "string option \<Rightarrow> Layout" where
  "lockup prop =
     struct [u64 (Some ''unixTimestamp''), u64 (Some ''epoch''), publicKey (Some ''custodian'')] prop"

definition fee :: "string option \<Rightarrow> Layout" where
  "fee prop = struct [u64 (Some ''denominator''), u64 (Some ''numerator'')] prop"

text \<open>\<open>StakePoolLayout\<close> of \<open>dist/index.browser.cjs.js\<close>, lines 548 to 582; the bundle
  assigns \<open>StakePoolLayout.span = 627\<close> after the construction.\<close>

definition StakePoolLayout_fields :: "Layout list" where
  "StakePoolLayout_fields =
    [u8 (Some ''accountType''),
     publicKey (Some ''manager''),
     publicKey (Some ''staker''),
     publicKey (Some ''stakeDepositAuthority''),
     u8 (Some ''stakeWithdrawBumpSeed''),
     publicKey (Some ''validatorList''),
     publicKey (Some ''reserveStake''),
     publicKey (Some ''poolMint''),
     publicKey (Some ''managerFeeAccount''),
     publicKey (Some ''tokenProgramId''),
     u64 (Some ''totalLamports''),
     u64 (Some ''poolTokenSupply''),
     u64 (Some ''lastUpdateEpoch''),
     lockup (Some ''lockup''),
     fee (Some ''epochFee''),
     futureEpoch (fee None) (Some ''nextEpochFee''),
     borsh_option (publicKey None) (Some ''preferredDepositValidatorVoteAddress''),
     borsh_option (publicKey None) (Some ''preferredWithdrawValidatorVoteAddress''),
     fee (Some ''stakeDepositFee''),
     fee (Some ''stakeWithdrawalFee''),
     fee (Some ''nextStakeWithdrawalFee''),
     futureEpoch (fee None) (Some ''nextStakeWithdrawalFee''),
     u8 (Some ''stakeReferralFee''),
     borsh_option (publicKey None) (Some ''solDepositAuthority''),
     fee (Some ''solDepositFee''),
     u8 (Some ''solReferralFee''),
     borsh_option (publicKey None) (Some ''solWithdrawAuthority''),
     fee (Some ''solWithdrawalFee''),
     futureEpoch (fee None) (Some ''nextSolWithdrawalFee''),
     u64 (Some ''lastEpochPoolTokenSupply''),
     u64 (Some ''lastEpochTotalLamports'')]"

definition StakePoolLayout :: Layout where
  "StakePoolLayout = Structure_layout 627 StakePoolLayout_fields None"

text \<open>
  Modelled from the spec: \<open>u64\<close> and \<open>publicKey\<close> of \<open>src/utils\<close>, which
  \<open>src/layouts.ts\<close> imports and which are not among the sources. The wire layout of the
  specification has them as the eight-byte little-endian unsigned integer and the 32-byte
  key, which is what the layouts of the same names in the bundle are.
\<close>

definition utils_u64 :: "string option \<Rightarrow> Layout" where
  "utils_u64 prop = u64 prop"

definition utils_publicKey :: "string option \<Rightarrow> Layout" where
  "utils_publicKey prop = publicKey prop"

text \<open>\<open>lockup\<close>, \<open>fee\<close> and \<open>StakePoolLayout\<close> of \<open>src/layouts.ts\<close>, lines 15 to 18
  and 113 to 144; \<open>struct\<close> and \<open>u8\<close> are those of buffer-layout.\<close>

definition ts_lockup :: "string option \<Rightarrow> Layout" where
  "ts_lockup prop =
     struct [utils_u64 (Some ''unixTimestamp''), utils_u64 (Some ''epoch''),
             utils_publicKey (Some ''custodian'')] prop"

definition ts_fee :: "string option \<Rightarrow> Layout" where
  "ts_fee prop = struct [utils_u64 (Some ''denominator''), utils_u64 (Some ''numerator'')] prop"

definition StakePoolLayout_ts_fields :: "Layout list" where
  "StakePoolLayout_ts_fields =
    [u8 (Some ''accountType''),
     utils_publicKey (Some ''manager''),
     utils_publicKey (Some ''staker''),
     utils_publicKey (Some ''stakeDepositAuthority''),
     u8 (Some ''stakeWithdrawBumpSeed''),
     utils_publicKey (Some ''validatorList''),
     utils_publicKey (Some ''reserveStake''),
     utils_publicKey (Some ''poolMint''),
     utils_publicKey (Some ''managerFeeAccount''),
     utils_publicKey (Some ''tokenProgramId''),
     utils_u64 (Some ''totalLamports''),
     utils_u64 (Some ''poolTokenSupply''),
     utils_u64 (Some ''lastUpdateEpoch''),
     ts_lockup (Some ''lockup''),
     ts_fee (Some ''epochFee''),
     utils_option (ts_fee (Some ''nextEpochFee'')),
     utils_option (utils_publicKey (Some ''preferredDepositValidatorVoteAddress'')),
     utils_option (utils_publicKey (Some ''preferredWithdrawValidatorVoteAddress'')),
     ts_fee (Some ''stakeDepositFee''),
     ts_fee (Some ''stakeWithdrawalFee''),
     utils_option (ts_fee (Some ''nextStakeWithdrawalFee'')),
     u8 (Some ''stakeReferralFee''),
     utils_option (utils_publicKey (Some ''solDepositAuthority'')),
     ts_fee (Some ''solDepositFee''),
     u8 (Some ''solReferralFee''),
     utils_option (utils_publicKey (Some ''solWithdrawAuthority'')),
     ts_fee (Some ''solWithdrawalFee''),
     utils_option (ts_fee (Some ''nextSolWithdrawalFee'')),
     utils_u64 (Some ''lastEpochPoolTokenSupply''),
     utils_u64 (Some ''lastEpochTotalLamports'')]"

definition StakePoolLayout_ts :: Layout where
  "StakePoolLayout_ts = struct StakePoolLayout_ts_fields None"

text \<open>The 611 bytes of the account \<open>data\<close> (base64) that the test
  \<open>should deserialize\<close> of the repository decodes.\<close>

definition test_account :: buffer where
  "test_account =
     [1, 106, 181, 139, 42, 253, 244, 4, 240, 53, 233, 33, 197, 151, 37, 142, 138, 80, 141, 224,
      98, 198, 101, 173, 250, 159, 249, 9, 53, 193, 153, 22, 221, 220, 218, 35, 212, 201, 66, 13,
      78, 130, 86, 29, 60, 107, 6, 163, 118, 240, 148, 7, 241, 183, 180, 252, 168, 253, 233, 171,
      28, 87, 67, 241, 103, 225, 224, 248, 169, 166, 252, 95, 242, 66, 228, 243, 81, 123, 240, 30,
      214, 178, 221, 25, 81, 160, 186, 182, 217, 67, 87, 37, 146, 134, 4, 247, 112, 255, 203, 170,
      66, 3, 9, 71, 85, 44, 25, 19, 133, 68, 112, 14, 230, 23, 213, 20, 126, 39, 37, 129,
      28, 219, 224, 156, 137, 3, 10, 111, 117, 226, 141, 163, 114, 69, 181, 54, 176, 179, 13, 187,
      253, 38, 127, 209, 89, 196, 244, 112, 3, 24, 42, 111, 20, 225, 39, 198, 252, 95, 59, 243,
      5, 116, 95, 12, 68, 99, 24, 171, 16, 201, 95, 64, 148, 149, 133, 112, 205, 5, 116, 101,
      165, 77, 171, 20, 217, 221, 227, 72, 26, 134, 254, 213, 252, 203, 227, 253, 163, 218, 191, 251,
      221, 76, 236, 17, 116, 80, 11, 77, 22, 80, 150, 40, 193, 244, 110, 102, 203, 63, 180, 65,
      103, 187, 83, 177, 6, 33, 6, 221, 246, 225, 215, 101, 161, 147, 217, 203, 225, 70, 206, 235,
      121, 172, 28, 180, 133, 237, 95, 91, 55, 145, 58, 140, 245, 133, 126, 255, 0, 169, 190, 14,
      91, 232, 48, 168, 1, 0, 13, 71, 68, 67, 45, 109, 1, 0, 65, 2, 0, 0, 0, 0,
      0, 0, 0, 0, 0, 0, 0, 0, 0, 0, 0, 0, 0, 0, 0, 0, 0, 0, 0, 0,
      0, 0, 0, 0, 0, 0, 0, 0, 0, 0, 0, 0, 0, 0, 0, 0, 0, 0, 0, 0,
      0, 0, 0, 0, 0, 0, 0, 0, 0, 0, 100, 0, 0, 0, 0, 0, 0, 0, 5, 0,
      0, 0, 0, 0, 0, 0, 0, 0, 0, 0, 0, 0, 0, 0, 0, 0, 0, 0, 0, 0,
      0, 0, 0, 0, 0, 64, 156, 0, 0, 0, 0, 0, 0, 45, 0, 0, 0, 0, 0, 0,
      0, 2, 128, 56, 1, 0, 0, 0, 0, 0, 135, 0, 0, 0, 0, 0, 0, 0, 0, 0,
      0, 0, 0, 0, 0, 0, 0, 0, 0, 0, 0, 0, 0, 0, 0, 0, 0, 0, 208, 7,
      0, 0, 0, 0, 0, 0, 3, 0, 0, 0, 0, 0, 0, 0, 2, 160, 15, 0, 0, 0,
      0, 0, 0, 9, 0, 0, 0, 0, 0, 0, 0, 170, 242, 202, 192, 42, 109, 1, 0, 245,
      219, 130, 60, 3, 168, 1, 0, 0, 137, 199, 123, 142, 199, 1, 0, 213, 76, 116, 35, 86,
      238, 1, 0, 0, 0, 0, 0, 0, 0, 0, 0, 0, 0, 0, 0, 0, 0, 0, 0, 0,
      0, 0, 0, 0, 0, 0, 0, 0, 0, 0, 0, 0, 0, 0, 0, 0, 0, 0, 0, 0,
      0, 0, 0, 0, 0, 0, 0, 0, 0, 0, 0, 0, 0, 0, 0, 0, 0, 0, 0, 0,
      0, 0, 0, 0, 0, 0, 0, 0, 0, 0, 0, 0, 0, 0, 0, 0, 0, 0, 0, 0,
      0, 0, 0, 0, 0, 0, 0, 0, 0, 0, 0, 0, 0, 0, 0, 0, 0, 0, 0, 0,
      0, 0, 0, 0, 0, 0, 0, 0, 0, 0, 0, 0, 0, 0, 0, 0, 0, 0, 0, 0,
      0, 0, 0, 0, 0, 0, 0, 0, 0, 0, 0]"
section \<open>Exact division\<close>

lemma bn_div_nonneg: "0 \<le> a \<Longrightarrow> 0 < b \<Longrightarrow> bn_div a b = Inr (a div b)"
  by (cases "a = 0") (simp_all add: bn_div_def)

lemma toNumber_ok: "0 \<le> x \<Longrightarrow> x < 2 ^ 53 \<Longrightarrow> toNumber x = Inr (of_int x)"
  by (simp add: toNumber_def)

lemma divide_parts:
  fixes n d :: int
  assumes "0 \<le> n" "0 < d"
  defines "r \<equiv> n mod d"
  defines "g \<equiv> gcd r d"
  shows "0 < g" "0 \<le> r" "0 \<le> r div g" "r div g \<le> d div g" "0 < d div g" "0 \<le> n div d"
proof -
  show g: "0 < g" using assms by (simp add: g_def)
  show r: "0 \<le> r" using assms by (simp add: r_def)
  show "0 \<le> r div g" using g r by (simp add: pos_imp_zdiv_nonneg_iff)
  have "r \<le> d" using assms by (simp add: r_def less_imp_le)
  then show "r div g \<le> d div g" using g by (simp add: zdiv_mono1)
  have "g dvd d" by (simp add: g_def)
  then have "g \<le> d" using assms by (simp add: zdvd_imp_le)
  then show "0 < d div g" using g by (simp add: pos_imp_zdiv_pos_iff)
  show "0 \<le> n div d" using assms by (simp add: pos_imp_zdiv_nonneg_iff)
qed

lemma divideBnToNumber_nonneg:
  fixes n d :: int
  assumes "0 \<le> n" "0 < d" "n div d < 2 ^ 53" "d div gcd (n mod d) d < 2 ^ 53"
  shows "divideBnToNumber n d =
         Inr (of_int (n div d) +
              of_int ((n mod d) div gcd (n mod d) d) / of_int (d div gcd (n mod d) d))"
proof -
  note p = divide_parts [OF assms(1,2)]
  have rg: "(n mod d) div gcd (n mod d) d < 2 ^ 53" using p(4) assms(4) by linarith
  show ?thesis
    using assms p rg
    by (simp add: divideBnToNumber_def andThen_def bn_umod_def bn_gcd_def Let_def
        bn_div_nonneg toNumber_ok)
qed

text \<open>When the denominator divides the numerator the remainder is zero, the fraction is
  \<open>0 / 1\<close>, and the result is the whole quotient.\<close>

lemma divideBnToNumber_dvd:
  fixes n d :: int
  assumes "0 \<le> n" "0 < d" "d dvd n" "n div d < 2 ^ 53"
  shows "divideBnToNumber n d = Inr (of_int (n div d))"
proof -
  have m: "n mod d = 0" using assms(3) by simp
  have "d div gcd (n mod d) d < 2 ^ 53" using assms(2) by (simp add: m)
  from divideBnToNumber_nonneg [OF assms(1,2,4) this] assms(2) show ?thesis
    by (simp add: m)
qed

text \<open>
  C5 as the claim states it, for all big integers, fails: the quotient of
  \<open>27021597764222976 = 3 * 2^53\<close> by 3 is \<open>2^53\<close>, and \<open>toNumber\<close> throws on it
  instead of returning the quotient plus the fraction.
\<close>

theorem C5_counterexample:
  "divideBnToNumber 27021597764222976 3 =
   Inl (AssertionError ''Number can only safely store up to 53 bits'')"
  by (simp add: divideBnToNumber_def andThen_def bn_div_def toNumber_def)

text \<open>
  C5, amended: \<open>divideBnToNumber n 0\<close> returns 0 without throwing, for every \<open>n\<close>. For
  \<open>n \<ge> 0\<close> and \<open>d > 0\<close> whose quotient \<open>floor(n/d)\<close> and reduced denominator \<open>d/g\<close>
  are below \<open>2^53\<close>, it returns \<open>floor(n/d) + (r/g) / (d/g)\<close> with \<open>r = n mod d\<close> and
  \<open>g = gcd(r, d)\<close>, the remainder and the denominator being divided by their gcd as big
  integers, before the conversion to numbers. \<open>divideBnToNumber 7 3\<close> is \<open>2 + 1/3\<close>,
  with \<open>g = 1\<close>.
\<close>

theorem C5_divideBnToNumber:
  fixes n d :: int
  shows "divideBnToNumber n 0 = Inr 0 \<and>
         (0 \<le> n \<and> 0 < d \<and> n div d < 2 ^ 53 \<and> d div gcd (n mod d) d < 2 ^ 53 \<longrightarrow>
            divideBnToNumber n d =
            Inr (of_int (n div d) +
                 of_int ((n mod d) div gcd (n mod d) d) / of_int (d div gcd (n mod d) d))) \<and>
         divideBnToNumber 7 3 = Inr (2 + 1 / 3) \<and> bn_gcd (bn_umod 7 3) 3 = 1"
proof (intro conjI impI)
  show "divideBnToNumber n 0 = Inr 0" by (simp add: divideBnToNumber_def)
  show "divideBnToNumber 7 3 = Inr (2 + 1 / 3)"
    by (simp add: divideBnToNumber_def andThen_def bn_div_def toNumber_def bn_umod_def bn_gcd_def)
  show "bn_gcd (bn_umod 7 3) 3 = 1" by (simp add: bn_umod_def bn_gcd_def)
next
  assume "0 \<le> n \<and> 0 < d \<and> n div d < 2 ^ 53 \<and> d div gcd (n mod d) d < 2 ^ 53"
  then show "divideBnToNumber n d =
      Inr (of_int (n div d) +
           of_int ((n mod d) div gcd (n mod d) d) / of_int (d div gcd (n mod d) d))"
    by (simp add: divideBnToNumber_nonneg)
qed

theorem C5_divideBnToNumber_witness:
  "(0::int) \<le> 10 \<and> (0::int) < 4 \<and> (10::int) div 4 < 2 ^ 53 \<and>
   (4::int) div gcd (10 mod 4) 4 < 2 ^ 53 \<and> divideBnToNumber 10 4 = Inr (2 + 1 / 2)"
  using C5_divideBnToNumber [of 10 4] by simp

section \<open>Unsigned integer layouts\<close>

lemma le_value_sum:
  "le_value xs = (\<Sum>i<length xs. uint (xs ! i) * 256 ^ i)"
proof (induction xs)
  case Nil
  then show ?case by simp
next
  case (Cons x xs)
  have "(\<Sum>i<Suc (length xs). uint ((x # xs) ! i) * 256 ^ i) =
        uint x + (\<Sum>i<length xs. uint (xs ! i) * 256 ^ Suc i)"
    by (simp add: sum.lessThan_Suc_shift del: sum.lessThan_Suc)
  also have "\<dots> = uint x + 256 * (\<Sum>i<length xs. uint (xs ! i) * 256 ^ i)"
    by (simp add: sum_distrib_left mult.assoc mult.left_commute)
  finally show ?case using Cons.IH by simp
qed

text \<open>
  C9 as the claim states it fails at the width 7, which the claim accepts: the
  constructor throws, and its message is not \<open>span too large\<close>.
\<close>

theorem C9_counterexample:
  "UInt 7 None = Inl (RangeError ''span must not exceed 6 bytes'')"
  by (simp add: UInt_def)

text \<open>
  C9, amended: constructing a little-endian unsigned-integer layout succeeds for every
  width up to 6 bytes and fails with \<open>RangeError: span must not exceed 6 bytes\<close> for any
  width greater than 6. For a width from 1 to 6, decoding at an offset that leaves
  \<open>width\<close> bytes in the buffer reads exactly these bytes, little-endian, and encoding a
  value of \<open>2^(8 * width)\<close> or more fails with a \<open>RangeError\<close>.
\<close>

theorem C9_UInt:
  "(sp \<le> 6 \<longrightarrow> UInt sp prop = Inr (UInt_layout sp prop)) \<and>
   (6 < sp \<longrightarrow> UInt sp prop = Inl (RangeError ''span must not exceed 6 bytes'')) \<and>
   (1 \<le> sp \<and> sp \<le> 6 \<and> offset + nat sp \<le> length b \<longrightarrow>
      decode (UInt_layout sp prop) b offset =
      Inr (JNum (\<Sum>i<nat sp. uint (b ! (offset + i)) * 256 ^ i))) \<and>
   (1 \<le> sp \<and> sp \<le> 6 \<and> 2 ^ (8 * nat sp) \<le> v \<longrightarrow>
      (\<exists>m. encode (UInt_layout sp prop) (JNum v) b offset = Inl (RangeError m)))"
proof (intro conjI impI)
  show "sp \<le> 6 \<Longrightarrow> UInt sp prop = Inr (UInt_layout sp prop)"
    by (simp add: UInt_def)
  show "6 < sp \<Longrightarrow> UInt sp prop = Inl (RangeError ''span must not exceed 6 bytes'')"
    by (simp add: UInt_def)
next
  assume a: "1 \<le> sp \<and> sp \<le> 6 \<and> offset + nat sp \<le> length b"
  then have "nat sp \<le> length b - offset" by linarith
  then have len: "length (take (nat sp) (drop offset b)) = nat sp" by simp
  have "le_value (take (nat sp) (drop offset b)) =
        (\<Sum>i<nat sp. uint (take (nat sp) (drop offset b) ! i) * 256 ^ i)"
    using le_value_sum [of "take (nat sp) (drop offset b)"] len by simp
  also have "\<dots> = (\<Sum>i<nat sp. uint (b ! (offset + i)) * 256 ^ i)"
    using a by (intro sum.cong) simp_all
  finally show "decode (UInt_layout sp prop) b offset =
      Inr (JNum (\<Sum>i<nat sp. uint (b ! (offset + i)) * 256 ^ i))"
    using a by (simp add: UInt_layout_def readUIntLE_def andThen_def)
next
  assume "1 \<le> sp \<and> sp \<le> 6 \<and> 2 ^ (8 * nat sp) \<le> v"
  then show "\<exists>m. encode (UInt_layout sp prop) (JNum v) b offset = Inl (RangeError m)"
    by (simp add: UInt_layout_def writeUIntLE_def andThen_def)
qed

theorem C9_UInt_witness:
  "UInt 6 None = Inr (UInt_layout 6 None) \<and>
   UInt 8 None = Inl (RangeError ''span must not exceed 6 bytes'') \<and>
   decode (UInt_layout 2 None) [9, 1, 2, 9] 1 = Inr (JNum 513) \<and>
   (\<exists>m. encode (UInt_layout 2 None) (JNum 65536) [9, 1, 2, 9] 1 = Inl (RangeError m))"
  using C9_UInt [of 6 None 0 "[]" 0] C9_UInt [of 8 None 0 "[]" 0]
    C9_UInt [of 2 None 1 "[9, 1, 2, 9]" 65536]
  by (simp add: numeral_2_eq_2 lessThan_Suc)
section \<open>The selector: allocations, errors and fees\<close>


lemma andThen_Inr_iff: "andThen r f = Inr y \<longleftrightarrow> (\<exists>v. r = Inr v \<and> f v = Inr y)"
  by (cases r) (simp_all add: andThen_def)

lemma andThen_Inr [simp]: "andThen (Inr v) f = f v"
  by (simp add: andThen_def)

lemma andThen_Inl [simp]: "andThen (Inl e) f = Inl e"
  by (simp add: andThen_def)

lemma walk_accounts_step:
  assumes "walk_accounts pool skipFee mb ty (a # as) (ws, rem) = Inr r"
  shows "walk_accounts pool skipFee mb ty as (ws, rem) = Inr r \<or>
         (\<exists>p. 0 < p \<and> p \<le> rem \<and>
              (if rem - p = 0 then r = (ws @ [allocation a p], rem - p)
               else walk_accounts pool skipFee mb ty as (ws @ [allocation a p], rem - p) = Inr r))"
proof (cases "lamports a \<le> mb \<and> ty = transient")
  case True
  with assms show ?thesis by simp
next
  case False
  with assms obtain available where
    r: "(let poolAmount = min available rem in
          if poolAmount \<le> 0 then walk_accounts pool skipFee mb ty as (ws, rem)
          else let withdrawFrom' = ws @ [\<lparr>w_stakeAddress = stakeAddress a, w_voteAddress = voteAddress a, poolAmount = poolAmount\<rparr>];
                   remainingAmount' = rem - poolAmount
               in if remainingAmount' = 0 then Inr (withdrawFrom', remainingAmount')
                  else walk_accounts pool skipFee mb ty as (withdrawFrom', remainingAmount')) = Inr r"
    by (auto simp: andThen_Inr_iff)
  show ?thesis
  proof (cases "min available rem \<le> 0")
    case True
    with r show ?thesis by (simp add: Let_def)
  next
    case False
    then have "0 < min available rem" "min available rem \<le> rem" by linarith+
    moreover from r False have
      "if rem - min available rem = 0 then r = (ws @ [allocation a (min available rem)], rem - min available rem)
       else walk_accounts pool skipFee mb ty as (ws @ [allocation a (min available rem)], rem - min available rem) = Inr r"
      by (auto simp: Let_def allocation_def split: if_splits)
    ultimately show ?thesis by blast
  qed
qed


lemma alloc_key_allocation [simp]: "alloc_key (allocation a p) = account_key a"
  by (simp add: alloc_key_def account_key_def allocation_def)

lemma poolAmount_allocation [simp]: "poolAmount (allocation a p) = p"
  by (simp add: allocation_def)









lemmas ev = prepareWithdrawAccounts_def candidate_accounts_def validator_accounts_def
  reserve_accounts_def sort_by_def default_compare_def MINIMUM_ACTIVE_STAKE_def types_def
  availableForWithdrawal_def calcPoolTokensForDeposit_def divideBnToNumber_def inverseFee_def
  toNumber_def new_BN_def bn_div_def bn_umod_def bn_gcd_def lamportsToSol_def
  LAMPORTS_PER_SOL_def ex_pool_def ex_validator_def ex_findStake_def ex_findTransient_def
  Let_def tier_order_def allocation_def




text \<open>
  C4 as the claim states it fails: when 8 pool tokens are requested and 5 can be
  allocated, the error carries \<open>lamportsToSol(8)\<close>, the requested amount, and neither the
  unmet remainder 3 nor the allocated 5.
\<close>

theorem C4_counterexample:
  "walk_types ex_pool False 3282880
     [\<lparr>type = active, voteAddress = Some [1], stakeAddress = [1, 1], lamports = 5\<rparr>] types ([], 8) =
   Inr ([\<lparr>w_stakeAddress = [1, 1], w_voteAddress = Some [1], poolAmount = 5\<rparr>], 3) \<and>
   prepareWithdrawAccounts ex_findStake ex_findTransient ex_pool
     [ex_validator\<lparr>activeStakeLamports := 5\<rparr>] 2282880 None 8 None False =
   Inl (NotEnoughStake (lamportsToSol 8)) \<and>
   lamportsToSol 8 \<noteq> lamportsToSol 3 \<and> lamportsToSol 8 \<noteq> lamportsToSol 5"
  by (simp add: ev)

text \<open>
  C4, amended: if, after the walk over all tiers, the remaining requested amount is
  greater than zero, the selector fails with the insufficient-balance error, and that
  error names the requested amount alone, as \<open>lamportsToSol(amount)\<close>, the absolute value
  of the amount over \<open>10^9\<close>.
\<close>

theorem C4_insufficient:
  assumes "candidate_accounts findStake findTransient stakePool validators
             minBalanceForRentExemption reserveLamports compareFn = Inr accounts"
    and "walk_types stakePool skipFee (minBalanceForRentExemption + MINIMUM_ACTIVE_STAKE)
           accounts types ([], amount) = Inr (withdrawFrom, remaining)"
    and "0 < remaining"
  shows "prepareWithdrawAccounts findStake findTransient stakePool validators
           minBalanceForRentExemption reserveLamports amount compareFn skipFee =
         Inl (NotEnoughStake (\<bar>amount\<bar> / 1000000000))"
  using assms by (simp add: prepareWithdrawAccounts_def lamportsToSol_def LAMPORTS_PER_SOL_def)

theorem C4_insufficient_witness:
  "candidate_accounts ex_findStake ex_findTransient ex_pool
     [ex_validator\<lparr>activeStakeLamports := 5\<rparr>] 2282880 None None =
   Inr [\<lparr>type = active, voteAddress = Some [1], stakeAddress = [1, 1], lamports = 5\<rparr>] \<and>
   walk_types ex_pool False (2282880 + MINIMUM_ACTIVE_STAKE)
     [\<lparr>type = active, voteAddress = Some [1], stakeAddress = [1, 1], lamports = 5\<rparr>] types ([], 8) =
   Inr ([\<lparr>w_stakeAddress = [1, 1], w_voteAddress = Some [1], poolAmount = 5\<rparr>], 3) \<and>
   (0 :: number) < 3 \<and>
   prepareWithdrawAccounts ex_findStake ex_findTransient ex_pool
     [ex_validator\<lparr>activeStakeLamports := 5\<rparr>] 2282880 None 8 None False =
   Inl (NotEnoughStake (8 / 1000000000))"
proof -
  have c: "candidate_accounts ex_findStake ex_findTransient ex_pool
     [ex_validator\<lparr>activeStakeLamports := 5\<rparr>] 2282880 None None =
     Inr [\<lparr>type = active, voteAddress = Some [1], stakeAddress = [1, 1], lamports = 5\<rparr>]"
    by (simp add: ev)
  have w: "walk_types ex_pool False (2282880 + MINIMUM_ACTIVE_STAKE)
     [\<lparr>type = active, voteAddress = Some [1], stakeAddress = [1, 1], lamports = 5\<rparr>] types ([], 8) =
     Inr ([\<lparr>w_stakeAddress = [1, 1], w_voteAddress = Some [1], poolAmount = 5\<rparr>], 3)"
    by (simp add: ev)
  have r: "(0 :: number) < 3" by simp
  from C4_insufficient [OF c w r] c w show ?thesis by simp
qed

lemma new_BN_of_int: "\<bar>k\<bar> < 2 ^ 53 \<Longrightarrow> new_BN (of_int k) = Inr k"
proof -
  assume k: "\<bar>k\<bar> < 2 ^ 53"
  then have "\<bar>(of_int k :: rat)\<bar> < 2 ^ 53"
    by (metis of_int_abs of_int_less_numeral_power_cancel_iff)
  moreover have "- \<lfloor>- (of_int k :: rat)\<rfloor> = k" by simp
  ultimately show ?thesis by (simp add: new_BN_def del: floor_uminus_of_int)
qed

text \<open>
  C7: the inverse fee is \<open>{numerator: denominator - numerator, denominator}\<close>; for
  \<open>3/2000\<close> it is \<open>1997/2000\<close>. The caller passes \<open>skipFee\<close> exactly when the requesting
  token account is the manager fee account. When \<open>skipFee\<close> holds or the inverted
  numerator is zero the pool tokens of a candidate are left as they are; otherwise they
  are multiplied by the inverted denominator and divided by the inverted numerator with
  \<open>divideBnToNumber\<close>, which gives the whole quotient when the division leaves no
  remainder.
\<close>

theorem C7_inverseFee:
  "inverseFee f =
     \<lparr>denominator = denominator f, numerator = denominator f - numerator f\<rparr> \<and>
   inverseFee \<lparr>denominator = 2000, numerator = 3\<rparr> = \<lparr>denominator = 2000, numerator = 1997\<rparr> \<and>
   withdrawStake_skipFee poolTokenAccount stakePool =
     (poolTokenAccount = managerFeeAccount stakePool) \<and>
   (skipFee \<or> numerator (inverseFee (stakeWithdrawalFee stakePool)) = 0 \<longrightarrow>
      availableForWithdrawal stakePool skipFee l = calcPoolTokensForDeposit stakePool l) \<and>
   (\<not> skipFee \<and> numerator (inverseFee (stakeWithdrawalFee stakePool)) \<noteq> 0 \<and>
    calcPoolTokensForDeposit stakePool l = Inr (of_int k) \<and> 0 \<le> k \<and> k < 2 ^ 53 \<longrightarrow>
      availableForWithdrawal stakePool skipFee l =
      divideBnToNumber (k * denominator (inverseFee (stakeWithdrawalFee stakePool)))
        (numerator (inverseFee (stakeWithdrawalFee stakePool)))) \<and>
   (\<not> skipFee \<and> 0 < numerator (inverseFee (stakeWithdrawalFee stakePool)) \<and>
    0 \<le> denominator (inverseFee (stakeWithdrawalFee stakePool)) \<and>
    calcPoolTokensForDeposit stakePool l = Inr (of_int k) \<and> 0 \<le> k \<and> k < 2 ^ 53 \<and>
    numerator (inverseFee (stakeWithdrawalFee stakePool)) dvd
      k * denominator (inverseFee (stakeWithdrawalFee stakePool)) \<and>
    k * denominator (inverseFee (stakeWithdrawalFee stakePool)) div
      numerator (inverseFee (stakeWithdrawalFee stakePool)) < 2 ^ 53 \<longrightarrow>
      availableForWithdrawal stakePool skipFee l =
      Inr (of_int (k * denominator (inverseFee (stakeWithdrawalFee stakePool)) div
                   numerator (inverseFee (stakeWithdrawalFee stakePool)))))"
proof (intro conjI impI)
  show "inverseFee f =
     \<lparr>denominator = denominator f, numerator = denominator f - numerator f\<rparr>"
    by (simp add: inverseFee_def)
  show "inverseFee \<lparr>denominator = 2000, numerator = 3\<rparr> = \<lparr>denominator = 2000, numerator = 1997\<rparr>"
    by (simp add: inverseFee_def)
  show "withdrawStake_skipFee poolTokenAccount stakePool =
     (poolTokenAccount = managerFeeAccount stakePool)"
    by (simp add: withdrawStake_skipFee_def)
next
  assume "skipFee \<or> numerator (inverseFee (stakeWithdrawalFee stakePool)) = 0"
  then show "availableForWithdrawal stakePool skipFee l = calcPoolTokensForDeposit stakePool l"
    by (cases "calcPoolTokensForDeposit stakePool l") (auto simp: availableForWithdrawal_def)
next
  assume a: "\<not> skipFee \<and> numerator (inverseFee (stakeWithdrawalFee stakePool)) \<noteq> 0 \<and>
    calcPoolTokensForDeposit stakePool l = Inr (of_int k) \<and> 0 \<le> k \<and> k < 2 ^ 53"
  then have "new_BN (of_int k) = Inr k" by (intro new_BN_of_int) simp
  with a show "availableForWithdrawal stakePool skipFee l =
      divideBnToNumber (k * denominator (inverseFee (stakeWithdrawalFee stakePool)))
        (numerator (inverseFee (stakeWithdrawalFee stakePool)))"
    by (simp add: availableForWithdrawal_def)
next
  define den where "den = denominator (inverseFee (stakeWithdrawalFee stakePool))"
  define num where "num = numerator (inverseFee (stakeWithdrawalFee stakePool))"
  assume "\<not> skipFee \<and> 0 < numerator (inverseFee (stakeWithdrawalFee stakePool)) \<and>
    0 \<le> denominator (inverseFee (stakeWithdrawalFee stakePool)) \<and>
    calcPoolTokensForDeposit stakePool l = Inr (of_int k) \<and> 0 \<le> k \<and> k < 2 ^ 53 \<and>
    numerator (inverseFee (stakeWithdrawalFee stakePool)) dvd
      k * denominator (inverseFee (stakeWithdrawalFee stakePool)) \<and>
    k * denominator (inverseFee (stakeWithdrawalFee stakePool)) div
      numerator (inverseFee (stakeWithdrawalFee stakePool)) < 2 ^ 53"
  then have a: "\<not> skipFee" "0 < num" "0 \<le> den"
    "calcPoolTokensForDeposit stakePool l = Inr (of_int k)" "0 \<le> k" "k < 2 ^ 53"
    "num dvd k * den" "k * den div num < 2 ^ 53"
    by (simp_all add: den_def num_def)
  have bn: "new_BN (of_int k) = Inr k" using a by (intro new_BN_of_int) simp
  have "divideBnToNumber (k * den) num = Inr (of_int (k * den div num))"
    using a by (intro divideBnToNumber_dvd) simp_all
  then show "availableForWithdrawal stakePool skipFee l =
      Inr (of_int (k * denominator (inverseFee (stakeWithdrawalFee stakePool)) div
                   numerator (inverseFee (stakeWithdrawalFee stakePool))))"
    using a bn by (simp add: availableForWithdrawal_def den_def num_def)
qed

theorem C7_inverseFee_witness:
  "calcPoolTokensForDeposit (ex_pool\<lparr>stakeWithdrawalFee := \<lparr>denominator = 2000, numerator = 3\<rparr>\<rparr>) 1997 =
     Inr (of_int 1997) \<and>
   availableForWithdrawal
     (ex_pool\<lparr>stakeWithdrawalFee := \<lparr>denominator = 2000, numerator = 3\<rparr>\<rparr>) False 1997 = Inr 2000 \<and>
   availableForWithdrawal
     (ex_pool\<lparr>stakeWithdrawalFee := \<lparr>denominator = 2000, numerator = 3\<rparr>\<rparr>) True 1997 = Inr 1997"
proof -
  have c: "calcPoolTokensForDeposit
      (ex_pool\<lparr>stakeWithdrawalFee := \<lparr>denominator = 2000, numerator = 3\<rparr>\<rparr>) 1997 = Inr (of_int 1997)"
    by (simp add: ev)
  show ?thesis
    using c
      C7_inverseFee [of "\<lparr>denominator = 2000, numerator = 3\<rparr>" "[7]"
        "ex_pool\<lparr>stakeWithdrawalFee := \<lparr>denominator = 2000, numerator = 3\<rparr>\<rparr>" False 1997 1997]
      C7_inverseFee [of "\<lparr>denominator = 2000, numerator = 3\<rparr>" "[7]"
        "ex_pool\<lparr>stakeWithdrawalFee := \<lparr>denominator = 2000, numerator = 3\<rparr>\<rparr>" True 1997 1997]
    by (simp add: ev)
qed

text \<open>
  C6 as the claim states it fails for a fee with a zero denominator and a nonzero
  numerator: the inverse of \<open>1/0\<close> has the numerator \<open>-1\<close>, the inversion is applied and
  gives 0 pool tokens, and the selector fails where the fee \<open>0/1\<close> allocates.
\<close>

theorem C6_counterexample:
  "numerator (inverseFee \<lparr>denominator = 0, numerator = 1\<rparr>) = - 1 \<and>
   availableForWithdrawal (ex_pool\<lparr>stakeWithdrawalFee := \<lparr>denominator = 0, numerator = 1\<rparr>\<rparr>) False 5 =
     Inr 0 \<and>
   availableForWithdrawal (ex_pool\<lparr>stakeWithdrawalFee := \<lparr>denominator = 1, numerator = 0\<rparr>\<rparr>) False 5 =
     Inr 5 \<and>
   prepareWithdrawAccounts ex_findStake ex_findTransient
     (ex_pool\<lparr>stakeWithdrawalFee := \<lparr>denominator = 0, numerator = 1\<rparr>\<rparr>)
     [ex_validator\<lparr>activeStakeLamports := 5\<rparr>] 2282880 None 3 None False =
     Inl (NotEnoughStake (3 / 1000000000)) \<and>
   prepareWithdrawAccounts ex_findStake ex_findTransient
     (ex_pool\<lparr>stakeWithdrawalFee := \<lparr>denominator = 1, numerator = 0\<rparr>\<rparr>)
     [ex_validator\<lparr>activeStakeLamports := 5\<rparr>] 2282880 None 3 None False =
     Inr [\<lparr>w_stakeAddress = [1, 1], w_voteAddress = Some [1], poolAmount = 3\<rparr>]"
  by (simp add: ev)

text \<open>
  C6, amended: division by a zero denominator yields 0 rather than an error; the deposit
  conversion returns the deposit unchanged when the supply or the total lamports is zero;
  in the selector a withdrawal fee whose denominator and numerator are both zero has an
  inverse fee with zero numerator, so that no fee inversion is applied and the pool
  tokens of the candidate pass through unchanged, and with the fee \<open>0/1\<close> they pass
  through unchanged as well (for a whole number of pool tokens below \<open>2^53\<close>).
\<close>

theorem C6_zero_denominator:
  "divideBnToNumber n 0 = Inr 0 \<and>
   (poolTokenSupply stakePool = 0 \<or> totalLamports stakePool = 0 \<longrightarrow>
      calcPoolTokensForDeposit stakePool l = Inr l) \<and>
   (stakeWithdrawalFee stakePool = \<lparr>denominator = 0, numerator = 0\<rparr> \<longrightarrow>
      numerator (inverseFee (stakeWithdrawalFee stakePool)) = 0 \<and>
      availableForWithdrawal stakePool skipFee l = calcPoolTokensForDeposit stakePool l) \<and>
   (stakeWithdrawalFee stakePool = \<lparr>denominator = 1, numerator = 0\<rparr> \<and>
    calcPoolTokensForDeposit stakePool l = Inr (of_int k) \<and> 0 \<le> k \<and> k < 2 ^ 53 \<longrightarrow>
      availableForWithdrawal stakePool skipFee l = calcPoolTokensForDeposit stakePool l)"
proof (intro conjI impI)
  show "divideBnToNumber n 0 = Inr 0" by (simp add: divideBnToNumber_def)
  show "poolTokenSupply stakePool = 0 \<or> totalLamports stakePool = 0 \<Longrightarrow>
      calcPoolTokensForDeposit stakePool l = Inr l"
    by (auto simp: calcPoolTokensForDeposit_def)
  show "stakeWithdrawalFee stakePool = \<lparr>denominator = 0, numerator = 0\<rparr> \<Longrightarrow>
      numerator (inverseFee (stakeWithdrawalFee stakePool)) = 0"
    by (simp add: inverseFee_def)
  show "stakeWithdrawalFee stakePool = \<lparr>denominator = 0, numerator = 0\<rparr> \<Longrightarrow>
      availableForWithdrawal stakePool skipFee l = calcPoolTokensForDeposit stakePool l"
    by (cases "calcPoolTokensForDeposit stakePool l")
      (simp_all add: availableForWithdrawal_def inverseFee_def)
next
  assume a: "stakeWithdrawalFee stakePool = \<lparr>denominator = 1, numerator = 0\<rparr> \<and>
    calcPoolTokensForDeposit stakePool l = Inr (of_int k) \<and> 0 \<le> k \<and> k < 2 ^ 53"
  then have bn: "new_BN (of_int k) = Inr k" by (intro new_BN_of_int) simp
  have "divideBnToNumber k 1 = Inr (of_int (k div 1))"
    using a by (intro divideBnToNumber_dvd) simp_all
  then show "availableForWithdrawal stakePool skipFee l = calcPoolTokensForDeposit stakePool l"
    using a bn by (simp add: availableForWithdrawal_def inverseFee_def)
qed

theorem C6_zero_denominator_witness:
  "availableForWithdrawal (ex_pool\<lparr>poolTokenSupply := 0\<rparr>) False 5 = Inr 5 \<and>
   availableForWithdrawal (ex_pool\<lparr>stakeWithdrawalFee := \<lparr>denominator = 1, numerator = 0\<rparr>\<rparr>) False 5 =
     Inr 5"
proof -
  have c: "calcPoolTokensForDeposit
      (ex_pool\<lparr>stakeWithdrawalFee := \<lparr>denominator = 1, numerator = 0\<rparr>\<rparr>) 5 = Inr (of_int 5)"
    by (simp add: ev)
  show ?thesis
    using c C6_zero_denominator [of 0 "ex_pool\<lparr>poolTokenSupply := 0\<rparr>" 5 False 5]
      C6_zero_denominator [of 0 "ex_pool\<lparr>stakeWithdrawalFee := \<lparr>denominator = 1, numerator = 0\<rparr>\<rparr>"
        5 False 5]
    by (simp add: ev)
qed

section \<open>The selector: the order of the walk\<close>


lemma guarded_walk_zero [simp]: "guarded_walk pool skipFee mb as (ws, 0) = Inr (ws, 0)"
  by (cases as) simp_all

lemma guarded_walk_append:
  "guarded_walk pool skipFee mb (xs @ ys) st =
   andThen (guarded_walk pool skipFee mb xs st) (guarded_walk pool skipFee mb ys)"
proof (induction xs arbitrary: st)
  case Nil
  then show ?case by simp
next
  case (Cons a xs)
  obtain ws rem where st: "st = (ws, rem)" by (cases st)
  show ?case
  proof (cases "availableForWithdrawal pool skipFee (lamports a)")
    case (Inl e)
    then show ?thesis by (simp add: st Cons.IH)
  next
    case (Inr available)
    then show ?thesis by (simp add: st Cons.IH)
  qed
qed

lemma walk_accounts_guarded:
  assumes "rem \<noteq> 0" "\<forall>a\<in>set accs. type a = ty"
  shows "walk_accounts pool skipFee mb ty accs (ws, rem) =
         guarded_walk pool skipFee mb accs (ws, rem)"
  using assms
proof (induction accs arbitrary: ws rem)
  case Nil
  then show ?case by simp
next
  case (Cons a as)
  then have ty: "type a = ty" and rest: "\<forall>a\<in>set as. type a = ty" by simp_all
  note IH = Cons.IH [OF _ rest]
  show ?case
  proof (cases "availableForWithdrawal pool skipFee (lamports a)")
    case (Inl e)
    then show ?thesis using Cons.prems(1) ty IH by auto
  next
    case (Inr available)
    show ?thesis
    proof (cases "min available rem \<le> 0")
      case True
      then show ?thesis using Cons.prems(1) ty IH Inr by auto
    next
      case False
      show ?thesis
      proof (cases "rem - min available rem = 0")
        case True
        then show ?thesis using Cons.prems(1) ty IH Inr False
          by (auto simp: allocation_def Let_def)
      next
        case nz: False
        then show ?thesis using Cons.prems(1) ty IH [OF nz] IH [OF Cons.prems(1)] Inr False
          by (auto simp: allocation_def Let_def)
      qed
    qed
  qed
qed

lemma walk_types_guarded:
  assumes "snd st \<noteq> 0"
  shows "walk_types pool skipFee mb accounts tys st =
         guarded_walk pool skipFee mb
           (concat (map (\<lambda>ty. filter (\<lambda>a. type a = ty) accounts) tys)) st"
  using assms
proof (induction tys arbitrary: st)
  case Nil
  then show ?case by simp
next
  case (Cons ty tys)
  obtain ws rem where st: "st = (ws, rem)" by (cases st)
  with Cons.prems have rem: "rem \<noteq> 0" by simp
  have tier: "walk_accounts pool skipFee mb ty (filter (\<lambda>a. type a = ty) accounts) (ws, rem) =
              guarded_walk pool skipFee mb (filter (\<lambda>a. type a = ty) accounts) (ws, rem)"
    by (rule walk_accounts_guarded [OF rem]) simp
  show ?case
  proof (cases "guarded_walk pool skipFee mb (filter (\<lambda>a. type a = ty) accounts) (ws, rem)")
    case (Inl e)
    then show ?thesis by (simp add: st tier guarded_walk_append)
  next
    case (Inr st')
    obtain ws' rem' where st': "st' = (ws', rem')" by (cases st')
    show ?thesis
    proof (cases "rem' = 0")
      case True
      then show ?thesis by (simp add: st tier guarded_walk_append Inr st')
    next
      case False
      then have "snd st' \<noteq> 0" by (simp add: st')
      from Cons.IH [OF this] False show ?thesis
        by (simp add: st tier guarded_walk_append Inr st')
    qed
  qed
qed

lemma walk_accounts_at_zero:
  "walk_accounts pool skipFee mb ty accs (ws, 0) = Inr r \<Longrightarrow> r = (ws, 0)"
proof (induction accs)
  case Nil
  then show ?case by simp
next
  case (Cons a as)
  from walk_accounts_step [OF Cons.prems] Cons.IH show ?case by auto
qed

lemma walk_types_at_zero:
  "walk_types pool skipFee mb accounts tys (ws, 0) = Inr r \<Longrightarrow> r = (ws, 0)"
proof (cases tys)
  case Nil
  then show "walk_types pool skipFee mb accounts tys (ws, 0) = Inr r \<Longrightarrow> r = (ws, 0)" by simp
next
  case (Cons ty tys')
  assume "walk_types pool skipFee mb accounts tys (ws, 0) = Inr r"
  then obtain st' where
    w: "walk_accounts pool skipFee mb ty (filter (\<lambda>a. type a = ty) accounts) (ws, 0) = Inr st'"
    and r: "(if snd st' = 0 then Inr st' else walk_types pool skipFee mb accounts tys' st') = Inr r"
    by (auto simp: Cons andThen_Inr_iff)
  from walk_accounts_at_zero [OF w] r show "r = (ws, 0)" by simp
qed

lemma set_insert_by [simp]: "set (insert_by cmp x ys) = insert x (set ys)"
  by (induction ys) auto

lemma set_sort_by [simp]: "set (sort_by cmp xs) = set xs"
  by (induction xs) (simp_all add: sort_by_def)

lemma mset_insert_by [simp]: "mset (insert_by cmp x ys) = add_mset x (mset ys)"
  by (induction ys) auto

lemma mset_sort_by [simp]: "mset (sort_by cmp xs) = mset xs"
  by (induction xs) (simp_all add: sort_by_def)

lemma sorted_insert_by:
  assumes total: "\<And>a b. cmp a b \<le> 0 \<or> cmp b a \<le> 0"
    and trans: "\<And>a b c. cmp a b \<le> 0 \<Longrightarrow> cmp b c \<le> 0 \<Longrightarrow> cmp a c \<le> 0"
    and "sorted_wrt (\<lambda>a b. cmp a b \<le> 0) ys"
  shows "sorted_wrt (\<lambda>a b. cmp a b \<le> 0) (insert_by cmp x ys)"
  using assms(3)
proof (induction ys)
  case Nil
  then show ?case by simp
next
  case (Cons y ys)
  show ?case
  proof (cases "cmp x y \<le> 0")
    case True
    with Cons.prems trans show ?thesis by auto
  next
    case False
    with total have "cmp y x \<le> 0" by blast
    with False Cons show ?thesis by auto
  qed
qed

lemma sorted_sort_by:
  assumes total: "\<And>a b. cmp a b \<le> 0 \<or> cmp b a \<le> 0"
    and trans: "\<And>a b c. cmp a b \<le> 0 \<Longrightarrow> cmp b c \<le> 0 \<Longrightarrow> cmp a c \<le> 0"
  shows "sorted_wrt (\<lambda>a b. cmp a b \<le> 0) (sort_by cmp xs)"
proof (induction xs)
  case Nil
  then show ?case by (simp add: sort_by_def)
next
  case (Cons x xs)
  then show ?case
    using sorted_insert_by [of cmp "sort_by cmp xs" x, OF total trans]
    by (simp add: sort_by_def)
qed

lemma validator_accounts_types:
  "validator_accounts findStake findTransient pool mb v = Inr accs \<Longrightarrow>
   \<forall>a\<in>set accs. type a \<noteq> reserve"
  by (auto simp: validator_accounts_def andThen_Inr_iff Let_def split: if_splits)

lemma prepare_accounts_types:
  "prepare_accounts findStake findTransient pool mb vs = Inr accs \<Longrightarrow>
   \<forall>a\<in>set accs. type a \<noteq> reserve"
proof (induction vs arbitrary: accs)
  case Nil
  then show ?case by simp
next
  case (Cons v vs)
  from Cons.prems obtain p r where
    "validator_accounts findStake findTransient pool mb v = Inr p"
    "prepare_accounts findStake findTransient pool mb vs = Inr r" "accs = p @ r"
    by (auto simp: andThen_Inr_iff)
  with Cons.IH validator_accounts_types show ?case by fastforce
qed

lemma candidate_tier_sorted:
  assumes total: "\<And>a b. cmp a b \<le> 0 \<or> cmp b a \<le> 0"
    and trans: "\<And>a b c. cmp a b \<le> 0 \<Longrightarrow> cmp b c \<le> 0 \<Longrightarrow> cmp a c \<le> 0"
    and "prepare_accounts findStake findTransient pool mb vs = Inr accs"
  shows "sorted_wrt (\<lambda>a b. cmp a b \<le> 0)
           (filter (\<lambda>a. type a = ty) (sort_by cmp accs @ reserve_accounts pool mr rl))"
proof (cases "ty = reserve")
  case True
  from prepare_accounts_types [OF assms(3)] have "filter (\<lambda>a. type a = ty) (sort_by cmp accs) = []"
    by (simp add: True filter_empty_conv)
  then show ?thesis by (simp add: reserve_accounts_def Let_def)
next
  case False
  then have "filter (\<lambda>a. type a = ty) (reserve_accounts pool mr rl) = []"
    by (auto simp: reserve_accounts_def Let_def)
  then show ?thesis
    using sorted_sort_by [of cmp accs, OF total trans] by (simp add: sorted_wrt_filter)
qed


text \<open>
  C3 as the claim states it fails: the only candidate is a transient account with 5
  lamports above the minimum balance, worth 5 pool tokens; the walk of the claim
  allocates \<open>min(5, 3) = 3\<close> from it, the selector passes it over because its 5 lamports
  are not above the minimum balance, and allocates nothing.
\<close>

theorem C3_counterexample:
  "candidate_accounts ex_findStake ex_findTransient ex_pool
     [ex_validator\<lparr>transientStakeLamports := 3282885\<rparr>] 2282880 None None =
   Inr [\<lparr>type = transient, voteAddress = Some [1], stakeAddress = [2, 1], lamports = 5\<rparr>] \<and>
   availableForWithdrawal ex_pool False 5 = Inr 5 \<and>
   claimed_walk ex_pool False
     (tier_order [\<lparr>type = transient, voteAddress = Some [1], stakeAddress = [2, 1], lamports = 5\<rparr>])
     ([], 3) =
   Inr ([\<lparr>w_stakeAddress = [2, 1], w_voteAddress = Some [1], poolAmount = 3\<rparr>], 0) \<and>
   walk_types ex_pool False (2282880 + MINIMUM_ACTIVE_STAKE)
     [\<lparr>type = transient, voteAddress = Some [1], stakeAddress = [2, 1], lamports = 5\<rparr>] types ([], 3) =
   Inr ([], 3)"
  by (simp add: ev)

text \<open>
  C3, amended: the selector walks the candidates tier by tier in the fixed order
  Preferred, Active, Transient, Reserve, within each tier in descending order of lamports
  (or in the order of the comparator of the caller, which replaces the default, when that
  comparator is consistent: negative one way exactly when positive the other way, and
  transitive); it passes over a Transient candidate whose lamports
  are at or below the minimum balance; for each other candidate it allocates the minimum
  of the candidate's available pool tokens and the remaining requested amount, skips the
  candidate without recording an allocation when that minimum is \<open>\<le> 0\<close>, and ends the
  walk as soon as the remaining requested amount is exactly zero, even within a tier. For
  a requested amount of zero nothing is allocated.
\<close>

theorem C3_walk:
  assumes "candidate_accounts findStake findTransient stakePool validators
             minBalanceForRentExemption reserveLamports compareFn = Inr accounts"
  shows "(compareFn = None \<longrightarrow>
            (\<forall>ty. sorted_wrt (\<lambda>a b. lamports b \<le> lamports a)
                    (filter (\<lambda>a. type a = ty) accounts))) \<and>
         (\<forall>f. compareFn = Some f \<and> (\<forall>a b. f a b < 0 \<longleftrightarrow> 0 < f b a) \<and>
              (\<forall>a b c. f a b \<le> 0 \<longrightarrow> f b c \<le> 0 \<longrightarrow> f a c \<le> 0) \<longrightarrow>
            (\<forall>ty. sorted_wrt (\<lambda>a b. f a b \<le> 0) (filter (\<lambda>a. type a = ty) accounts))) \<and>
         tier_order accounts =
           filter (\<lambda>a. type a = preferred) accounts @ filter (\<lambda>a. type a = active) accounts @
           filter (\<lambda>a. type a = transient) accounts @ filter (\<lambda>a. type a = reserve) accounts \<and>
         (amount \<noteq> 0 \<longrightarrow>
            walk_types stakePool skipFee minBalance accounts types ([], amount) =
            guarded_walk stakePool skipFee minBalance (tier_order accounts) ([], amount)) \<and>
         (\<forall>r. walk_types stakePool skipFee minBalance accounts types ([], 0) = Inr r \<longrightarrow>
              r = ([], 0))"
proof -
  from assms obtain accs where
    p: "prepare_accounts findStake findTransient stakePool
          (minBalanceForRentExemption + MINIMUM_ACTIVE_STAKE) validators = Inr accs"
    and a: "accounts =
          sort_by (case compareFn of None \<Rightarrow> default_compare | Some f \<Rightarrow> f) accs @
          reserve_accounts stakePool minBalanceForRentExemption reserveLamports"
    by (auto simp: candidate_accounts_def andThen_Inr_iff Let_def split: if_splits)
  have d: "\<forall>ty. sorted_wrt (\<lambda>a b. default_compare a b \<le> 0)
             (filter (\<lambda>a. type a = ty)
               (sort_by default_compare accs @
                reserve_accounts stakePool minBalanceForRentExemption reserveLamports))"
    by (intro allI candidate_tier_sorted [OF _ _ p]) (auto simp: default_compare_def)
  have 1: "compareFn = None \<longrightarrow>
            (\<forall>ty. sorted_wrt (\<lambda>a b. lamports b \<le> lamports a)
                    (filter (\<lambda>a. type a = ty) accounts))"
    using d by (simp add: a default_compare_def)
  have 2: "\<forall>f. compareFn = Some f \<and> (\<forall>a b. f a b < 0 \<longleftrightarrow> 0 < f b a) \<and>
              (\<forall>a b c. f a b \<le> 0 \<longrightarrow> f b c \<le> 0 \<longrightarrow> f a c \<le> 0) \<longrightarrow>
            (\<forall>ty. sorted_wrt (\<lambda>a b. f a b \<le> 0) (filter (\<lambda>a. type a = ty) accounts))"
  proof (intro allI impI)
    fix f ty
    assume f: "compareFn = Some f \<and> (\<forall>a b. f a b < 0 \<longleftrightarrow> 0 < f b a) \<and>
              (\<forall>a b c. f a b \<le> 0 \<longrightarrow> f b c \<le> 0 \<longrightarrow> f a c \<le> 0)"
    have total: "f a b \<le> 0 \<or> f b a \<le> 0" for a b
    proof (cases "f a b \<le> 0")
      case True
      then show ?thesis by simp
    next
      case False
      then have "0 < f a b" by simp
      with f have "f b a < 0" by blast
      then show ?thesis by simp
    qed
    have trans: "f a b \<le> 0 \<Longrightarrow> f b c \<le> 0 \<Longrightarrow> f a c \<le> 0" for a b c
      using f by blast
    have "sorted_wrt (\<lambda>a b. f a b \<le> 0)
        (filter (\<lambda>a. type a = ty)
          (sort_by f accs @ reserve_accounts stakePool minBalanceForRentExemption reserveLamports))"
      by (rule candidate_tier_sorted [OF total trans p])
    with f show "sorted_wrt (\<lambda>a b. f a b \<le> 0) (filter (\<lambda>a. type a = ty) accounts)"
      by (simp add: a)
  qed
  have 3: "tier_order accounts =
      filter (\<lambda>a. type a = preferred) accounts @ filter (\<lambda>a. type a = active) accounts @
      filter (\<lambda>a. type a = transient) accounts @ filter (\<lambda>a. type a = reserve) accounts"
    by (simp add: tier_order_def types_def)
  have 4: "amount \<noteq> 0 \<longrightarrow>
      walk_types stakePool skipFee minBalance accounts types ([], amount) =
      guarded_walk stakePool skipFee minBalance (tier_order accounts) ([], amount)"
    using walk_types_guarded [of "([], amount)" stakePool skipFee minBalance accounts types]
    by (simp add: tier_order_def)
  have 5: "\<forall>r. walk_types stakePool skipFee minBalance accounts types ([], 0) = Inr r \<longrightarrow>
      r = ([], 0)"
    using walk_types_at_zero by blast
  from 1 2 3 4 5 show ?thesis by blast
qed

theorem C3_walk_witness:
  "candidate_accounts ex_findStake ex_findTransient ex_pool
     [ex_validator\<lparr>activeStakeLamports := 5\<rparr>,
      ex_validator\<lparr>activeStakeLamports := 7, transientStakeLamports := 9282880\<rparr>]
     2282880 (Some 2282960) None =
   Inr [\<lparr>type = transient, voteAddress = Some [1], stakeAddress = [2, 1], lamports = 6000000\<rparr>,
        \<lparr>type = active, voteAddress = Some [1], stakeAddress = [1, 1], lamports = 7\<rparr>,
        \<lparr>type = active, voteAddress = Some [1], stakeAddress = [1, 1], lamports = 5\<rparr>,
        \<lparr>type = reserve, voteAddress = None, stakeAddress = [9], lamports = 79\<rparr>] \<and>
   walk_types ex_pool False 3282880
     [\<lparr>type = transient, voteAddress = Some [1], stakeAddress = [2, 1], lamports = 6000000\<rparr>,
      \<lparr>type = active, voteAddress = Some [1], stakeAddress = [1, 1], lamports = 7\<rparr>,
      \<lparr>type = active, voteAddress = Some [1], stakeAddress = [1, 1], lamports = 5\<rparr>,
      \<lparr>type = reserve, voteAddress = None, stakeAddress = [9], lamports = 79\<rparr>] types ([], 20) =
   Inr ([\<lparr>w_stakeAddress = [1, 1], w_voteAddress = Some [1], poolAmount = 7\<rparr>,
         \<lparr>w_stakeAddress = [1, 1], w_voteAddress = Some [1], poolAmount = 5\<rparr>,
         \<lparr>w_stakeAddress = [2, 1], w_voteAddress = Some [1], poolAmount = 8\<rparr>], 0) \<and>
   sorted_wrt (\<lambda>a b. lamports b \<le> lamports a)
     (filter (\<lambda>a. type a = active)
       [\<lparr>type = transient, voteAddress = Some [1], stakeAddress = [2, 1], lamports = 6000000\<rparr>,
        \<lparr>type = active, voteAddress = Some [1], stakeAddress = [1, 1], lamports = 7\<rparr>,
        \<lparr>type = active, voteAddress = Some [1], stakeAddress = [1, 1], lamports = 5\<rparr>,
        \<lparr>type = reserve, voteAddress = None, stakeAddress = [9], lamports = 79\<rparr>]) \<and>
   candidate_accounts ex_findStake ex_findTransient ex_pool
     [ex_validator\<lparr>activeStakeLamports := 7, transientStakeLamports := 9282880\<rparr>,
      ex_validator\<lparr>activeStakeLamports := 5\<rparr>]
     2282880 (Some 2282960) (Some ex_compareFn) =
   Inr [\<lparr>type = active, voteAddress = Some [1], stakeAddress = [1, 1], lamports = 5\<rparr>,
        \<lparr>type = active, voteAddress = Some [1], stakeAddress = [1, 1], lamports = 7\<rparr>,
        \<lparr>type = transient, voteAddress = Some [1], stakeAddress = [2, 1], lamports = 6000000\<rparr>,
        \<lparr>type = reserve, voteAddress = None, stakeAddress = [9], lamports = 79\<rparr>] \<and>
   sorted_wrt (\<lambda>a b. ex_compareFn a b \<le> 0)
     (filter (\<lambda>a. type a = active)
       [\<lparr>type = active, voteAddress = Some [1], stakeAddress = [1, 1], lamports = 5\<rparr>,
        \<lparr>type = active, voteAddress = Some [1], stakeAddress = [1, 1], lamports = 7\<rparr>,
        \<lparr>type = transient, voteAddress = Some [1], stakeAddress = [2, 1], lamports = 6000000\<rparr>,
        \<lparr>type = reserve, voteAddress = None, stakeAddress = [9], lamports = 79\<rparr>])"
proof -
  have c: "candidate_accounts ex_findStake ex_findTransient ex_pool
     [ex_validator\<lparr>activeStakeLamports := 5\<rparr>,
      ex_validator\<lparr>activeStakeLamports := 7, transientStakeLamports := 9282880\<rparr>]
     2282880 (Some 2282960) None =
   Inr [\<lparr>type = transient, voteAddress = Some [1], stakeAddress = [2, 1], lamports = 6000000\<rparr>,
        \<lparr>type = active, voteAddress = Some [1], stakeAddress = [1, 1], lamports = 7\<rparr>,
        \<lparr>type = active, voteAddress = Some [1], stakeAddress = [1, 1], lamports = 5\<rparr>,
        \<lparr>type = reserve, voteAddress = None, stakeAddress = [9], lamports = 79\<rparr>]"
    by (simp add: ev)
  have n: "(20 :: number) \<noteq> 0" by simp
  have first: "walk_types ex_pool False 3282880
     [\<lparr>type = transient, voteAddress = Some [1], stakeAddress = [2, 1], lamports = 6000000\<rparr>,
      \<lparr>type = active, voteAddress = Some [1], stakeAddress = [1, 1], lamports = 7\<rparr>,
      \<lparr>type = active, voteAddress = Some [1], stakeAddress = [1, 1], lamports = 5\<rparr>,
      \<lparr>type = reserve, voteAddress = None, stakeAddress = [9], lamports = 79\<rparr>] types ([], 20) =
   Inr ([\<lparr>w_stakeAddress = [1, 1], w_voteAddress = Some [1], poolAmount = 7\<rparr>,
         \<lparr>w_stakeAddress = [1, 1], w_voteAddress = Some [1], poolAmount = 5\<rparr>,
         \<lparr>w_stakeAddress = [2, 1], w_voteAddress = Some [1], poolAmount = 8\<rparr>], 0) \<and>
   sorted_wrt (\<lambda>a b. lamports b \<le> lamports a)
     (filter (\<lambda>a. type a = active)
       [\<lparr>type = transient, voteAddress = Some [1], stakeAddress = [2, 1], lamports = 6000000\<rparr>,
        \<lparr>type = active, voteAddress = Some [1], stakeAddress = [1, 1], lamports = 7\<rparr>,
        \<lparr>type = active, voteAddress = Some [1], stakeAddress = [1, 1], lamports = 5\<rparr>,
        \<lparr>type = reserve, voteAddress = None, stakeAddress = [9], lamports = 79\<rparr>])"
    using C3_walk [OF c, of 20 False 3282880] n by (simp add: ev)
  have sign: "\<forall>a b. ex_compareFn a b < 0 \<longleftrightarrow> 0 < ex_compareFn b a"
    by (simp add: ex_compareFn_def)
  have trans: "\<forall>a b c. ex_compareFn a b \<le> 0 \<longrightarrow> ex_compareFn b c \<le> 0 \<longrightarrow> ex_compareFn a c \<le> 0"
    by (simp add: ex_compareFn_def)
  have c': "candidate_accounts ex_findStake ex_findTransient ex_pool
     [ex_validator\<lparr>activeStakeLamports := 7, transientStakeLamports := 9282880\<rparr>,
      ex_validator\<lparr>activeStakeLamports := 5\<rparr>]
     2282880 (Some 2282960) (Some ex_compareFn) =
   Inr [\<lparr>type = active, voteAddress = Some [1], stakeAddress = [1, 1], lamports = 5\<rparr>,
        \<lparr>type = active, voteAddress = Some [1], stakeAddress = [1, 1], lamports = 7\<rparr>,
        \<lparr>type = transient, voteAddress = Some [1], stakeAddress = [2, 1], lamports = 6000000\<rparr>,
        \<lparr>type = reserve, voteAddress = None, stakeAddress = [9], lamports = 79\<rparr>]"
    by (simp add: ev ex_compareFn_def)
  have second: "sorted_wrt (\<lambda>a b. ex_compareFn a b \<le> 0)
     (filter (\<lambda>a. type a = active)
       [\<lparr>type = active, voteAddress = Some [1], stakeAddress = [1, 1], lamports = 5\<rparr>,
        \<lparr>type = active, voteAddress = Some [1], stakeAddress = [1, 1], lamports = 7\<rparr>,
        \<lparr>type = transient, voteAddress = Some [1], stakeAddress = [2, 1], lamports = 6000000\<rparr>,
        \<lparr>type = reserve, voteAddress = None, stakeAddress = [9], lamports = 79\<rparr>])"
    using C3_walk [OF c', of 20 False 3282880] sign trans by blast
  from c first c' second show ?thesis by blast
qed

section \<open>The selector: the candidate list\<close>


lemma toNumber_Inr: "toNumber x = Inr l \<Longrightarrow> l = of_int x"
  by (simp add: toNumber_def split: if_splits)


lemma validator_accounts_shape:
  assumes "validator_accounts findStake findTransient pool mb v = Inr accs"
  shows "accs =
     (if status v = Active \<and> activeStakeLamports v \<noteq> 0 then [active_account findStake pool v] else []) @
     (if status v = Active \<and> 0 < of_int (transientStakeLamports v) - mb
      then [transient_account findTransient mb v] else [])"
  using assms
  by (auto simp: validator_accounts_def andThen_Inr_iff Let_def active_account_def
      transient_account_def split: if_splits dest!: toNumber_Inr)

lemma prepare_accounts_shape:
  assumes "prepare_accounts findStake findTransient pool mb vs = Inr accs"
  shows "accs = concat (map (\<lambda>v.
     (if status v = Active \<and> activeStakeLamports v \<noteq> 0 then [active_account findStake pool v] else []) @
     (if status v = Active \<and> 0 < of_int (transientStakeLamports v) - mb
      then [transient_account findTransient mb v] else [])) vs)"
  using assms
proof (induction vs arbitrary: accs)
  case Nil
  then show ?case by simp
next
  case (Cons v vs)
  from Cons.prems obtain p r where
    p: "validator_accounts findStake findTransient pool mb v = Inr p"
    and r: "prepare_accounts findStake findTransient pool mb vs = Inr r" and accs: "accs = p @ r"
    by (auto simp: andThen_Inr_iff)
  show ?case
    unfolding accs Cons.IH [OF r] validator_accounts_shape [OF p] by simp
qed

lemma active_account_type:
  "type (active_account findStake pool v) = preferred \<or> type (active_account findStake pool v) = active"
  by (simp add: active_account_def)

lemma transient_account_type [simp]: "type (transient_account findTransient mb v) = transient"
  by (simp add: transient_account_def)

lemma shape_active_mset:
  "{#a \<in># mset (concat (map (\<lambda>v.
     (if status v = Active \<and> activeStakeLamports v \<noteq> 0 then [active_account findStake pool v] else []) @
     (if status v = Active \<and> 0 < of_int (transientStakeLamports v) - mb
      then [transient_account findTransient mb v] else [])) vs)). type a = preferred \<or> type a = active#} =
   image_mset (active_account findStake pool)
     {#v \<in># mset vs. status v = Active \<and> activeStakeLamports v \<noteq> 0#}"
proof (induction vs)
  case Nil
  then show ?case by simp
next
  case (Cons v vs)
  then show ?case using active_account_type [of findStake pool v] by auto
qed

lemma shape_transient_mset:
  "{#a \<in># mset (concat (map (\<lambda>v.
     (if status v = Active \<and> activeStakeLamports v \<noteq> 0 then [active_account findStake pool v] else []) @
     (if status v = Active \<and> 0 < of_int (transientStakeLamports v) - mb
      then [transient_account findTransient mb v] else [])) vs)). type a = transient#} =
   image_mset (transient_account findTransient mb)
     {#v \<in># mset vs. status v = Active \<and> 0 < of_int (transientStakeLamports v) - mb#}"
proof (induction vs)
  case Nil
  then show ?case by simp
next
  case (Cons v vs)
  then show ?case using active_account_type [of findStake pool v] by auto
qed

text \<open>
  C2: when the selector builds its candidate list, the Active-or-Preferred candidates of
  the list are exactly one for each validator whose status is Active and whose
  \<open>activeStakeLamports\<close> is not zero, Preferred exactly when its vote address is the
  preferred-withdraw vote address of the pool, with the active lamports; the Transient
  candidates are exactly one for each validator whose status is Active and whose
  \<open>transientStakeLamports\<close> minus the minimum balance (the rent exemption plus
  \<open>MINIMUM_ACTIVE_STAKE\<close>) is strictly positive, with that excess; and there is exactly
  one Reserve candidate, the last of the list, if and only if the reserve balance minus
  the rent exemption minus 1 lamport is strictly positive, with that difference.
  Validators whose status is not Active contribute no candidate.
\<close>

theorem C2_candidates:
  assumes "candidate_accounts findStake findTransient stakePool validators
             minBalanceForRentExemption reserveLamports compareFn = Inr accounts"
  shows "{#a \<in># mset accounts. type a = preferred \<or> type a = active#} =
           image_mset
             (\<lambda>v. \<lparr>type = (if preferredWithdrawValidatorVoteAddress stakePool =
                               Some (voteAccountAddress v) then preferred else active),
                    voteAddress = Some (voteAccountAddress v),
                    stakeAddress = findStake (voteAccountAddress v),
                    lamports = of_int (activeStakeLamports v)\<rparr>)
             {#v \<in># mset validators. status v = Active \<and> activeStakeLamports v \<noteq> 0#} \<and>
         {#a \<in># mset accounts. type a = transient#} =
           image_mset
             (\<lambda>v. \<lparr>type = transient,
                    voteAddress = Some (voteAccountAddress v),
                    stakeAddress = findTransient (voteAccountAddress v) (transientSeedSuffixStart v),
                    lamports = of_int (transientStakeLamports v) -
                               (minBalanceForRentExemption + 1000000)\<rparr>)
             {#v \<in># mset validators. status v = Active \<and>
                0 < of_int (transientStakeLamports v) - (minBalanceForRentExemption + 1000000)#} \<and>
         filter (\<lambda>a. type a = reserve) accounts =
           (if 0 < (case reserveLamports of None \<Rightarrow> 0 | Some l \<Rightarrow> l) - minBalanceForRentExemption - 1
            then [\<lparr>type = reserve, voteAddress = None, stakeAddress = reserveStake stakePool,
                   lamports = (case reserveLamports of None \<Rightarrow> 0 | Some l \<Rightarrow> l) -
                              minBalanceForRentExemption - 1\<rparr>]
            else [])"
proof -
  define mb where "mb = minBalanceForRentExemption + 1000000"
  from assms obtain accs where
    p: "prepare_accounts findStake findTransient stakePool mb validators = Inr accs"
    and a: "accounts =
          sort_by (case compareFn of None \<Rightarrow> default_compare | Some f \<Rightarrow> f) accs @
          reserve_accounts stakePool minBalanceForRentExemption reserveLamports"
    by (auto simp: candidate_accounts_def andThen_Inr_iff Let_def mb_def MINIMUM_ACTIVE_STAKE_def
        split: if_splits)
  note shape = prepare_accounts_shape [OF p]
  have res: "\<forall>a\<in>set (reserve_accounts stakePool minBalanceForRentExemption reserveLamports).
               type a = reserve"
    by (simp add: reserve_accounts_def Let_def)
  have r1: "{#a \<in># mset (reserve_accounts stakePool minBalanceForRentExemption reserveLamports).
              type a = preferred \<or> type a = active#} = {#}"
    by (simp add: reserve_accounts_def Let_def)
  have r2: "{#a \<in># mset (reserve_accounts stakePool minBalanceForRentExemption reserveLamports).
              type a = transient#} = {#}"
    by (simp add: reserve_accounts_def Let_def)
  have 1: "{#a \<in># mset accounts. type a = preferred \<or> type a = active#} =
           image_mset (active_account findStake stakePool)
             {#v \<in># mset validators. status v = Active \<and> activeStakeLamports v \<noteq> 0#}"
  proof -
    have "{#a \<in># mset accounts. type a = preferred \<or> type a = active#} =
          {#a \<in># mset accs. type a = preferred \<or> type a = active#}"
      unfolding a by (simp add: r1)
    also have "\<dots> = image_mset (active_account findStake stakePool)
             {#v \<in># mset validators. status v = Active \<and> activeStakeLamports v \<noteq> 0#}"
      unfolding shape by (rule shape_active_mset)
    finally show ?thesis .
  qed
  have 2: "{#a \<in># mset accounts. type a = transient#} =
           image_mset (transient_account findTransient mb)
             {#v \<in># mset validators. status v = Active \<and> 0 < of_int (transientStakeLamports v) - mb#}"
  proof -
    have "{#a \<in># mset accounts. type a = transient#} = {#a \<in># mset accs. type a = transient#}"
      unfolding a by (simp add: r2)
    also have "\<dots> = image_mset (transient_account findTransient mb)
             {#v \<in># mset validators. status v = Active \<and> 0 < of_int (transientStakeLamports v) - mb#}"
      unfolding shape by (rule shape_transient_mset)
    finally show ?thesis .
  qed
  have "filter (\<lambda>a. type a = reserve) (sort_by (case compareFn of None \<Rightarrow> default_compare | Some f \<Rightarrow> f) accs) = []"
    using prepare_accounts_types [OF p] by (simp add: filter_empty_conv)
  then have 3: "filter (\<lambda>a. type a = reserve) accounts =
           reserve_accounts stakePool minBalanceForRentExemption reserveLamports"
    using res by (simp add: a)
  show ?thesis
    using 1 2 3
    by (simp add: active_account_def [abs_def] transient_account_def [abs_def] mb_def
        reserve_accounts_def Let_def)
qed

theorem C2_candidates_witness:
  "candidate_accounts ex_findStake ex_findTransient ex_pool
     [ex_validator\<lparr>activeStakeLamports := 5\<rparr>,
      ex_validator\<lparr>status := ReadyForRemoval, activeStakeLamports := 6\<rparr>,
      ex_validator\<lparr>activeStakeLamports := 7, transientStakeLamports := 9282880\<rparr>]
     2282880 (Some 2282960) None =
   Inr [\<lparr>type = transient, voteAddress = Some [1], stakeAddress = [2, 1], lamports = 6000000\<rparr>,
        \<lparr>type = active, voteAddress = Some [1], stakeAddress = [1, 1], lamports = 7\<rparr>,
        \<lparr>type = active, voteAddress = Some [1], stakeAddress = [1, 1], lamports = 5\<rparr>,
        \<lparr>type = reserve, voteAddress = None, stakeAddress = [9], lamports = 79\<rparr>] \<and>
   filter (\<lambda>a. type a = reserve)
     [\<lparr>type = transient, voteAddress = Some [1], stakeAddress = [2, 1], lamports = 6000000\<rparr>,
      \<lparr>type = active, voteAddress = Some [1], stakeAddress = [1, 1], lamports = 7\<rparr>,
      \<lparr>type = active, voteAddress = Some [1], stakeAddress = [1, 1], lamports = 5\<rparr>,
      \<lparr>type = reserve, voteAddress = None, stakeAddress = [9], lamports = 79\<rparr>] =
   [\<lparr>type = reserve, voteAddress = None, stakeAddress = reserveStake ex_pool, lamports = 79\<rparr>]"
proof -
  have c: "candidate_accounts ex_findStake ex_findTransient ex_pool
     [ex_validator\<lparr>activeStakeLamports := 5\<rparr>,
      ex_validator\<lparr>status := ReadyForRemoval, activeStakeLamports := 6\<rparr>,
      ex_validator\<lparr>activeStakeLamports := 7, transientStakeLamports := 9282880\<rparr>]
     2282880 (Some 2282960) None =
   Inr [\<lparr>type = transient, voteAddress = Some [1], stakeAddress = [2, 1], lamports = 6000000\<rparr>,
        \<lparr>type = active, voteAddress = Some [1], stakeAddress = [1, 1], lamports = 7\<rparr>,
        \<lparr>type = active, voteAddress = Some [1], stakeAddress = [1, 1], lamports = 5\<rparr>,
        \<lparr>type = reserve, voteAddress = None, stakeAddress = [9], lamports = 79\<rparr>]"
    by (simp add: ev)
  from C2_candidates [OF c] c show ?thesis by simp
qed

section \<open>The discriminated optional layout\<close>


lemma u8_encode:
  "offset < length b \<Longrightarrow>
   encode (u8 prop) (JNum (uint (x :: 8 word))) b offset = Inr (b[offset := x], 1)"
proof -
  assume o: "offset < length b"
  have "uint x < 256" using uint_bounded [of x] by simp
  moreover have "0 \<le> uint x" by simp
  ultimately show ?thesis
    using o
    by (simp add: u8_def UInt_layout_def writeUIntLE_def buf_write_def andThen_def
        upd_conv_take_nth_drop numeral_eq_Suc)
qed

lemma le_bytes_numeral:
  "le_bytes (numeral k) v = word_of_int v # le_bytes (pred_numeral k) (v div 256)"
  by (simp add: numeral_eq_Suc)

lemma u8_encode_0: "offset < length b \<Longrightarrow> encode (u8 prop) (JNum 0) b offset = Inr (b[offset := 0], 1)"
  using u8_encode [of offset b _ 0] by simp

lemma u8_encode_1: "offset < length b \<Longrightarrow> encode (u8 prop) (JNum 1) b offset = Inr (b[offset := 1], 1)"
  using u8_encode [of offset b _ 1] by simp

lemma u8_decode:
  "offset < length b \<Longrightarrow> decode (u8 prop) b offset = Inr (JNum (uint (b ! offset)))"
  by (simp add: u8_def UInt_layout_def readUIntLE_def andThen_def take_Suc_conv_app_nth
      Cons_nth_drop_Suc [symmetric])

lemma futureEpoch_decode:
  assumes "offset < length b"
  shows "decode (futureEpoch L prop) b offset =
           (if b ! offset = 0 then Inr JNull else decode L b (offset + 1))"
    and "getSpan (futureEpoch L prop) b offset =
           (if b ! offset = 0 then Inr 1
            else andThen (getSpan L b (offset + 1)) (\<lambda>n. Inr (n + 1)))"
  using assms
  by (simp_all add: futureEpoch_def FutureEpochLayout_def Let_def u8_decode uint_0_iff)

lemma futureEpoch_encode:
  assumes "offset < length b"
  shows "encode (futureEpoch L prop) JNull b offset = Inr (b[offset := 0], 1)"
    and "v \<noteq> JNull \<Longrightarrow> encode (futureEpoch L prop) v b offset =
           andThen (encode L v (b[offset := 1]) (offset + 1)) (\<lambda>(b2, n). Inr (b2, n + 1))"
  using assms
  by (simp_all add: futureEpoch_def FutureEpochLayout_def Let_def u8_encode_0 u8_encode_1)

lemma length_le_bytes [simp]: "length (le_bytes n v) = n"
  by (induction n arbitrary: v) simp_all

lemma le_value_le_bytes: "0 \<le> v \<Longrightarrow> v < 256 ^ n \<Longrightarrow> le_value (le_bytes n v) = v"
proof (induction n arbitrary: v)
  case 0
  then show ?case by simp
next
  case (Suc n)
  have "v div 256 < 256 ^ n" using Suc.prems by simp
  moreover have "0 \<le> v div 256" using Suc.prems by simp
  ultimately have "le_value (le_bytes n (v div 256)) = v div 256" by (rule Suc.IH [rotated])
  moreover have "uint (word_of_int v :: 8 word) = v mod 256"
    by (simp add: uint_word_of_int take_bit_eq_mod)
  ultimately show ?case by simp
qed

lemma buf_write_twice:
  assumes "offset + length xs + length ys \<le> length b"
  shows "buf_write (buf_write b offset xs) (offset + length xs) ys =
         take offset b @ xs @ ys @ drop (offset + length xs + length ys) b"
proof -
  have l: "length (take offset b) = offset" using assms by simp
  have "take (offset + length xs) (take offset b @ xs @ drop (offset + length xs) b) = take offset b @ xs"
    using l by simp
  moreover have "drop (offset + length xs + length ys) (take offset b @ xs @ drop (offset + length xs) b) =
      drop (offset + length xs + length ys) b"
    using l by (simp add: add.commute)
  ultimately show ?thesis by (simp add: buf_write_def)
qed

lemma length_buf_write:
  "offset + length xs \<le> length b \<Longrightarrow> length (buf_write b offset xs) = length b"
  by (simp add: buf_write_def)

lemma read_first:
  "length pre = offset \<Longrightarrow> take (length xs) (drop offset (pre @ xs @ rest)) = xs"
  by simp

lemma read_second:
  "length pre = offset \<Longrightarrow> take (length ys) (drop (offset + length xs) (pre @ xs @ ys @ rest)) = ys"
  by simp

lemma u64_encode:
  assumes "0 \<le> v" "v < 2 ^ 64" "offset + 8 \<le> length b"
  shows "encode (u64 p) (JBN v) b offset = Inr (buf_write b offset (le_bytes 8 v), 8)"
  using assms by (simp add: u64_def Blob_layout_def Let_def)

lemma u64_decode: "decode (u64 p) b offset = Inr (JBN (le_value (take 8 (drop offset b))))"
  by (simp add: u64_def Blob_layout_def Let_def)

lemma u64_fields:
  "property (u64 q) = q" "getSpan (u64 q) bb oo = Inr 8" "span (u64 q) = 8"
  by (simp_all add: u64_def Let_def Layout_getSpan_def)

lemma fee_encode:
  assumes "0 \<le> d" "d < 2 ^ 64" "0 \<le> n" "n < 2 ^ 64" "offset + 16 \<le> length b"
  shows "encode (fee p) (JObject [(''denominator'', JBN d), (''numerator'', JBN n)]) b offset =
         Inr (take offset b @ le_bytes 8 d @ le_bytes 8 n @ drop (offset + 16) b, 16)"
proof -
  define b1 where "b1 = buf_write b offset (le_bytes 8 d)"
  have w1: "offset + 8 \<le> length b" using assms(5) by simp
  have w2: "offset + 8 + 8 \<le> length b1"
    using assms(5) by (simp add: b1_def length_buf_write)
  have tw: "buf_write b1 (offset + 8) (le_bytes 8 n) =
        take offset b @ le_bytes 8 d @ le_bytes 8 n @ drop (offset + 16) b"
    using buf_write_twice [of offset "le_bytes 8 d" "le_bytes 8 n" b] assms(5)
    by (simp add: b1_def add.commute [of 16 offset])
  have e1: "encode (u64 (Some ''denominator'')) (JBN d) b offset = Inr (b1, 8)"
    using u64_encode [OF assms(1,2) w1] by (simp add: b1_def)
  have e2: "encode (u64 (Some ''numerator'')) (JBN n) b1 (offset + 8) =
            Inr (take offset b @ le_bytes 8 d @ le_bytes 8 n @ drop (offset + 16) b, 8)"
    using u64_encode [OF assms(3,4), of "offset + 8" b1] w2 tw by simp
  have n8: "nat (int offset + 8) = offset + 8" by simp
  show ?thesis
    by (simp add: fee_def struct_def Structure_layout_def obj_get_def u64_fields e1 e2 n8)
qed

lemma fee_decode:
  assumes "0 \<le> d" "d < 2 ^ 64" "0 \<le> n" "n < 2 ^ 64"
    and b': "b' = pre @ le_bytes 8 d @ le_bytes 8 n @ post" and pre: "length pre = offset"
  shows "decode (fee p) b' offset =
         Inr (JObject [(''denominator'', JBN d), (''numerator'', JBN n)])"
    and "getSpan (fee p) b' offset = Inr 16"
proof -
  have d: "le_value (le_bytes 8 d) = d" "le_value (le_bytes 8 n) = n"
    using assms by (simp_all add: le_value_le_bytes)
  have r1: "take 8 (drop offset b') = le_bytes 8 d"
    unfolding b' pre [symmetric] by simp
  have r2: "take 8 (drop (offset + 8) b') = le_bytes 8 n"
    unfolding b' pre [symmetric] by simp
  show "decode (fee p) b' offset =
         Inr (JObject [(''denominator'', JBN d), (''numerator'', JBN n)])"
    by (simp add: fee_def struct_def Structure_layout_def u64_fields u64_decode r1 r2 d)
  show "getSpan (fee p) b' offset = Inr 16"
    by (simp add: fee_def struct_def Structure_layout_def u64_fields)
qed

lemma futureEpoch_fee_roundtrip:
  assumes "0 \<le> d" "d < 2 ^ 64" "0 \<le> n" "n < 2 ^ 64" "offset + 17 \<le> length b"
  defines "v \<equiv> JObject [(''denominator'', JBN d), (''numerator'', JBN n)]"
  defines "b' \<equiv> take offset b @ 1 # le_bytes 8 d @ le_bytes 8 n @ drop (offset + 17) b"
  shows "encode (futureEpoch (fee None) p) v b offset = Inr (b', 17)"
    and "decode (futureEpoch (fee None) p) b' offset = Inr v"
    and "getSpan (futureEpoch (fee None) p) b' offset = Inr 17"
proof -
  have o: "offset < length b" using assms(5) by simp
  have t: "take (offset + 1) (b[offset := 1]) = take offset b @ [1]"
    using o by (simp add: take_Suc_conv_app_nth)
  have dr: "drop (offset + 1 + 16) (b[offset := 1]) = drop (offset + 17) b"
    by (simp add: add.commute)
  have e: "encode (fee None) v (b[offset := 1]) (offset + 1) = Inr (b', 16)"
    using fee_encode [OF assms(1-4), of "offset + 1" "b[offset := 1]" None] assms(5) t dr
    by (simp add: v_def b'_def)
  have nn: "v \<noteq> JNull" by (simp add: v_def)
  show "encode (futureEpoch (fee None) p) v b offset = Inr (b', 17)"
    using futureEpoch_encode(2) [OF o nn, of "fee None" p] e by simp
  have b'': "b' = (take offset b @ [1]) @ le_bytes 8 d @ le_bytes 8 n @ drop (offset + 17) b"
    by (simp add: b'_def)
  have pre: "length (take offset b @ [1]) = offset + 1" using o by simp
  have lb: "offset < length b'" using o by (simp add: b'_def)
  have at: "b' ! offset = 1" using o by (simp add: b'_def nth_append)
  show "decode (futureEpoch (fee None) p) b' offset = Inr v"
    using futureEpoch_decode(1) [OF lb, of "fee None" p] at
      fee_decode(1) [OF assms(1-4) b'' pre, of None]
    by (simp add: v_def)
  show "getSpan (futureEpoch (fee None) p) b' offset = Inr 17"
    using futureEpoch_decode(2) [OF lb, of "fee None" p] at
      fee_decode(2) [OF assms(1-4) b'' pre, of None]
    by simp
qed

text \<open>
  C8: for the \<open>futureEpoch\<close> layout over any inner layout \<open>L\<close>, at an offset inside the
  buffer: encoding an absent value writes the one byte 0 and returns 1; encoding a present
  value \<open>v\<close> writes the lead byte 1, then the inner encoding of \<open>v\<close> at \<open>offset + 1\<close>, and
  returns 1 + the inner span; decoding reads the discriminator byte, gives \<open>null\<close> with
  span 1 when it is 0, and for any nonzero discriminator decodes the inner layout at
  \<open>offset + 1\<close>, with span 1 + the inner span; so decoding what was encoded gives \<open>null\<close>
  back, and gives \<open>v\<close> back whenever the inner layout decodes its own encoding of \<open>v\<close>
  and leaves the lead byte alone. That is so for \<open>futureEpoch(fee())\<close>, the layout of
  the next-epoch fees of the pool: every fee of two 64-bit values is encoded as the byte 1
  and its 16 bytes, and decoded back.
\<close>

theorem C8_futureEpoch:
  assumes "offset < length b"
  shows "encode (futureEpoch L prop) JNull b offset = Inr (b[offset := 0], 1) \<and>
         decode (futureEpoch L prop) (b[offset := 0]) offset = Inr JNull \<and>
         getSpan (futureEpoch L prop) (b[offset := 0]) offset = Inr 1 \<and>
         (v \<noteq> JNull \<and> encode L v (b[offset := 1]) (offset + 1) = Inr (b', n) \<longrightarrow>
            encode (futureEpoch L prop) v b offset = Inr (b', n + 1)) \<and>
         (b ! offset = 0 \<longrightarrow>
            decode (futureEpoch L prop) b offset = Inr JNull \<and>
            getSpan (futureEpoch L prop) b offset = Inr 1) \<and>
         (b ! offset \<noteq> 0 \<longrightarrow>
            decode (futureEpoch L prop) b offset = decode L b (offset + 1) \<and>
            getSpan (futureEpoch L prop) b offset =
              andThen (getSpan L b (offset + 1)) (\<lambda>k. Inr (k + 1))) \<and>
         (v \<noteq> JNull \<and> encode L v (b[offset := 1]) (offset + 1) = Inr (b', n) \<and>
          length b' = length b \<and> b' ! offset = 1 \<and>
          decode L b' (offset + 1) = Inr v \<and> getSpan L b' (offset + 1) = Inr n \<longrightarrow>
            decode (futureEpoch L prop) b' offset = Inr v \<and>
            getSpan (futureEpoch L prop) b' offset = Inr (n + 1)) \<and>
         (0 \<le> dn \<and> dn < 2 ^ 64 \<and> 0 \<le> nm \<and> nm < 2 ^ 64 \<and> offset + 17 \<le> length b \<longrightarrow>
            encode (futureEpoch (fee None) prop)
              (JObject [(''denominator'', JBN dn), (''numerator'', JBN nm)]) b offset =
            Inr (take offset b @ 1 # le_bytes 8 dn @ le_bytes 8 nm @ drop (offset + 17) b, 17) \<and>
            decode (futureEpoch (fee None) prop)
              (take offset b @ 1 # le_bytes 8 dn @ le_bytes 8 nm @ drop (offset + 17) b) offset =
            Inr (JObject [(''denominator'', JBN dn), (''numerator'', JBN nm)]) \<and>
            getSpan (futureEpoch (fee None) prop)
              (take offset b @ 1 # le_bytes 8 dn @ le_bytes 8 nm @ drop (offset + 17) b) offset =
            Inr 17)"
proof -
  have len: "offset < length (b[offset := 0])" using assms by simp
  have z: "(b[offset := 0]) ! offset = 0" using assms by simp
  have generic: "encode (futureEpoch L prop) JNull b offset = Inr (b[offset := 0], 1) \<and>
         decode (futureEpoch L prop) (b[offset := 0]) offset = Inr JNull \<and>
         getSpan (futureEpoch L prop) (b[offset := 0]) offset = Inr 1 \<and>
         (v \<noteq> JNull \<and> encode L v (b[offset := 1]) (offset + 1) = Inr (b', n) \<longrightarrow>
            encode (futureEpoch L prop) v b offset = Inr (b', n + 1)) \<and>
         (b ! offset = 0 \<longrightarrow>
            decode (futureEpoch L prop) b offset = Inr JNull \<and>
            getSpan (futureEpoch L prop) b offset = Inr 1) \<and>
         (b ! offset \<noteq> 0 \<longrightarrow>
            decode (futureEpoch L prop) b offset = decode L b (offset + 1) \<and>
            getSpan (futureEpoch L prop) b offset =
              andThen (getSpan L b (offset + 1)) (\<lambda>k. Inr (k + 1))) \<and>
         (v \<noteq> JNull \<and> encode L v (b[offset := 1]) (offset + 1) = Inr (b', n) \<and>
          length b' = length b \<and> b' ! offset = 1 \<and>
          decode L b' (offset + 1) = Inr v \<and> getSpan L b' (offset + 1) = Inr n \<longrightarrow>
            decode (futureEpoch L prop) b' offset = Inr v \<and>
            getSpan (futureEpoch L prop) b' offset = Inr (n + 1))"
    using assms len z by (auto simp: futureEpoch_encode futureEpoch_decode)
  show ?thesis
    using generic futureEpoch_fee_roundtrip [of dn nm offset b] by blast
qed

theorem C8_futureEpoch_witness:
  "encode (futureEpoch (fee None) None) JNull [7, 7, 7] 1 = Inr ([7, 0, 7], 1) \<and>
   decode (futureEpoch (fee None) None) [7, 0, 7] 1 = Inr JNull \<and>
   encode (futureEpoch (fee None) None)
     (JObject [(''denominator'', JBN 2000), (''numerator'', JBN 3)]) [7, 7, 7, 7, 7, 7, 7, 7, 7, 7, 7, 7, 7, 7, 7, 7, 7, 7, 7] 1 =
   Inr ([7, 1, 208, 7, 0, 0, 0, 0, 0, 0, 3, 0, 0, 0, 0, 0, 0, 0, 7], 17) \<and>
   decode (futureEpoch (fee None) None)
     [7, 1, 208, 7, 0, 0, 0, 0, 0, 0, 3, 0, 0, 0, 0, 0, 0, 0, 7] 1 =
   Inr (JObject [(''denominator'', JBN 2000), (''numerator'', JBN 3)]) \<and>
   getSpan (futureEpoch (fee None) None)
     [7, 1, 208, 7, 0, 0, 0, 0, 0, 0, 3, 0, 0, 0, 0, 0, 0, 0, 7] 1 = Inr 17"
proof -
  let ?v = "JObject [(''denominator'', JBN 2000), (''numerator'', JBN 3)]"
  let ?b' = "[7, 1, 208, 7, 0, 0, 0, 0, 0, 0, 3, 0, 0, 0, 0, 0, 0, 0, 7] :: buffer"
  have e: "encode (fee None) ?v ([7, 7, 7, 7, 7, 7, 7, 7, 7, 7, 7, 7, 7, 7, 7, 7, 7, 7, 7][1 := 1]) (1 + 1) = Inr (?b', 16)"
    by (simp add: fee_def struct_def Structure_layout_def u64_def Blob_layout_def obj_get_def
        buf_write_def andThen_def Layout_getSpan_def le_bytes_numeral)
  have d: "decode (fee None) ?b' (1 + 1) = Inr ?v"
    by (simp add: fee_def struct_def Structure_layout_def u64_def Blob_layout_def
        andThen_def Layout_getSpan_def)
  have s: "getSpan (fee None) ?b' (1 + 1) = Inr 16"
    by (simp add: fee_def struct_def Structure_layout_def u64_def Blob_layout_def)
  have l: "1 < length ([7, 7, 7, 7, 7, 7, 7, 7, 7, 7, 7, 7, 7, 7, 7, 7, 7, 7, 7] :: buffer)" by simp
  have l3: "1 < length [7, 7, 7 :: 8 word]" by simp
  show ?thesis
    using C8_futureEpoch [OF l, of "fee None" None ?v ?b' 16 2000 3] e d s
      C8_futureEpoch [OF l3, of "fee None" None JNull "[]" 0 0 0]
    by (simp add: le_bytes_numeral)
qed

section \<open>The layout of the stake pool account\<close>

lemma bundle_decodes_test_account:
  "(case decode StakePoolLayout test_account 0 of
      Inl e \<Rightarrow> None
    | Inr v \<Rightarrow> obj_get v ''nextStakeWithdrawalFee'') = Some JNull"
  by code_simp

lemma source_decodes_test_account:
  "(case decode StakePoolLayout_ts test_account 0 of
      Inl e \<Rightarrow> None
    | Inr v \<Rightarrow> obj_get v ''nextStakeWithdrawalFee'') =
   Some (JObject [(''denominator'', JBN 80000), (''numerator'', JBN 135)])"
  by code_simp

lemma test_account_bytes:
  "take 17 (drop 381 test_account) = [2, 128, 56, 1, 0, 0, 0, 0, 0, 135, 0, 0, 0, 0, 0, 0, 0]"
  by code_simp

text \<open>
  C1 on the account of the repository's own test. After the 16 bytes of
  \<open>stakeWithdrawalFee\<close>, at offset 381, the account holds the discriminator 2 and the fee
  \<open>135/80000\<close>. The layout of \<open>src/layouts.ts\<close> decodes that fee as
  \<open>nextStakeWithdrawalFee\<close>. The layout of the bundle first reads 16 bytes as a fee of
  that name, then takes the byte at offset 397 for the discriminator and overwrites the
  property with \<open>null\<close>: the two layouts do not decode the same record.
\<close>

theorem C1_layouts_differ:
  "take 17 (drop 381 test_account) = [2, 128, 56, 1, 0, 0, 0, 0, 0, 135, 0, 0, 0, 0, 0, 0, 0] \<and>
   (case decode StakePoolLayout_ts test_account 0 of
      Inl e \<Rightarrow> None
    | Inr v \<Rightarrow> obj_get v ''nextStakeWithdrawalFee'') =
   Some (JObject [(''denominator'', JBN 80000), (''numerator'', JBN 135)]) \<and>
   (case decode StakePoolLayout test_account 0 of
      Inl e \<Rightarrow> None
    | Inr v \<Rightarrow> obj_get v ''nextStakeWithdrawalFee'') = Some JNull"
  using test_account_bytes source_decodes_test_account bundle_decodes_test_account by blast

end
